theory Spec2Isabelle
  imports Main "HOL-Library.Sublist"
begin

section \<open>Data model\<close>

text \<open>
  A shallow embedding of \<^verbatim>\<open>main.py\<close>, the Tianyancha shareholder-table scraper.
  The program is a sequence of calls on a browser (Playwright), on a workbook file (pandas)
  and on the logger. The model threads a world: the workbook files and the trace of every
  effect performed so far. What the browser and the file system answer is not decided by
  the program; it is a parameter, the environment, asked with the trace so far, so that the
  theorems hold for every behaviour of the site.

  Python strings are byte lists in UTF-8, so the Chinese literals of the source are written
  as their bytes. A substring test on UTF-8 bytes agrees with Python's test on code points.
\<close>

type_synonym pystr = string

datatype exn =
    PlaywrightError pystr
  | AttributeError
  | ValueError
  | UnboundLocalError
  | FileNotFoundError
  | OSError pystr
  | InvalidIndexError
  | IndexError

datatype page = Page nat

text \<open>Locators are built lazily: building one never touches the browser and never fails.\<close>

datatype locator =
    Locator page pystr
  | Nth locator nat
  | First locator
  | Sub_locator locator pystr
  | Has_text locator pystr

datatype mode = ModeW | ModeA

text \<open>
  The calls that return nothing. \<open>WriteExcel p ModeA s\<close> stands for
  \<^verbatim>\<open>with pd.ExcelWriter(p, mode="a", if_sheet_exists="replace") as writer: df.to_excel(writer, sheet_name=s, index=False)\<close>,
  \<open>ModeW\<close> for the same with \<^verbatim>\<open>mode="w"\<close>.
\<close>

datatype action =
    Fill locator pystr
  | Press locator pystr
  | Click locator
  | WaitForLoadState page pystr
  | WaitForTimeout page nat
  | Close page
  | Goto page pystr
  | ReadExcel pystr pystr
  | WriteExcel pystr mode pystr
  | BrowserClose

datatype level = Debug | Info | Warning | Error | Critical

text \<open>One constructor for each logging call of the source, with the values its f-string prints.\<close>

datatype msg =
    StartScrape pystr
  | NoResults pystr
  | PopupLoaded pystr
  | AttemptHistorical
  | ClickedTab pystr
  | TabNotFound pystr
  | NoHistoricalTab pystr
  | HistoricalError pystr exn
  | CompanyError pystr exn
  | ScrapingTable pystr pystr
  | StillLoading nat
  | NotLoaded pystr pystr
  | TableHtml pystr
  | IncompleteRow "pystr list"
  | TableError pystr exn
  | SheetMissing pystr
  | DataAppended pystr pystr
  | ExcelError exn
  | UnexpectedError exn

datatype event =
    Log level msg
  | Sleep nat
  | Act action "exn option"
  | TextContent locator "exn + pystr option"
  | InnerHtml locator "exn + pystr"
  | ExpectPopup locator "exn + page"

text \<open>
  A DataFrame: column labels and rows of cells; \<open>None\<close> is NaN, and a cell that is not text
  stands as the text that prints it. A workbook maps sheet names to the frame that
  \<^verbatim>\<open>to_excel\<close> last wrote there.
\<close>

type_synonym cell = "pystr option"

record frame =
  columns :: "pystr list"
  rows :: "cell list list"

type_synonym workbook = "pystr \<rightharpoonup> frame"

record world =
  files :: "pystr \<rightharpoonup> workbook"
  trace :: "event list"

text \<open>
  What \<^verbatim>\<open>BeautifulSoup(table_html, "html.parser")\<close> finds: the stripped texts of the
  \<^verbatim>\<open>th\<close> cells of the first \<^verbatim>\<open>thead\<close> (\<open>None\<close> when there is no \<^verbatim>\<open>thead\<close>), and for
  each \<^verbatim>\<open>tr\<close> of the first \<^verbatim>\<open>tbody\<close> the stripped texts of its \<^verbatim>\<open>td\<close> cells.
\<close>

record parsed =
  thead :: "pystr list option"
  tbody :: "pystr list list option"

text \<open>
  The environment: the answer of each call given the trace so far (\<open>None\<close> for a call that
  returns, \<open>Some e\<close> or \<open>Inl e\<close> for one that raises \<open>e\<close>), and the two library functions the
  source uses on strings, the parser of the markup and \<^verbatim>\<open>str.strip\<close>. A read or a write of
  the workbook asks the environment first, which can refuse it (a locked or unreadable
  file); what a write stores is decided by the program, and what a read returns is
  \<open>read_back\<close> of the frame stored: \<^verbatim>\<open>pd.read_excel\<close> parses the sheet anew, so it infers the
  types of the cells again (the text \<^verbatim>\<open>001\<close> comes back as the number 1), reads an empty
  text as NaN and renames duplicate or empty column labels.
\<close>

record env =
  act :: "event list \<Rightarrow> action \<Rightarrow> exn option"
  text_content :: "event list \<Rightarrow> locator \<Rightarrow> exn + pystr option"
  inner_html :: "event list \<Rightarrow> locator \<Rightarrow> exn + pystr"
  expect_popup :: "event list \<Rightarrow> locator \<Rightarrow> exn + page"
  soup :: "pystr \<Rightarrow> parsed"
  strip :: "pystr \<Rightarrow> pystr"
  read_back :: "frame \<Rightarrow> frame"

section \<open>Primitive effects\<close>

definition log :: "level \<Rightarrow> msg \<Rightarrow> world \<Rightarrow> world" where
  "log lvl m w = w\<lparr>trace := trace w @ [Log lvl m]\<rparr>"

definition sleep :: "nat \<Rightarrow> world \<Rightarrow> world" where
  "sleep n w = w\<lparr>trace := trace w @ [Sleep n]\<rparr>"

definition do_act :: "env \<Rightarrow> action \<Rightarrow> world \<Rightarrow> (exn + unit) \<times> world" where
  "do_act e a w =
     (let r = act e (trace w) a;
          w' = w\<lparr>trace := trace w @ [Act a r]\<rparr>
      in (case r of None \<Rightarrow> Inr () | Some x \<Rightarrow> Inl x, w'))"

definition get_text_content :: "env \<Rightarrow> locator \<Rightarrow> world \<Rightarrow> (exn + pystr option) \<times> world" where
  "get_text_content e l w =
     (let r = text_content e (trace w) l in (r, w\<lparr>trace := trace w @ [TextContent l r]\<rparr>))"

definition get_inner_html :: "env \<Rightarrow> locator \<Rightarrow> world \<Rightarrow> (exn + pystr) \<times> world" where
  "get_inner_html e l w =
     (let r = inner_html e (trace w) l in (r, w\<lparr>trace := trace w @ [InnerHtml l r]\<rparr>))"

text \<open>\<^verbatim>\<open>with page.expect_popup() as popup_info: link.click()\<close> and then \<^verbatim>\<open>popup_info.value\<close>.\<close>

definition click_expect_popup :: "env \<Rightarrow> locator \<Rightarrow> world \<Rightarrow> (exn + page) \<times> world" where
  "click_expect_popup e l w =
     (let r = expect_popup e (trace w) l in (r, w\<lparr>trace := trace w @ [ExpectPopup l r]\<rparr>))"

section \<open>pandas\<close>

definition sheet_of :: "world \<Rightarrow> pystr \<Rightarrow> pystr \<Rightarrow> frame option" where
  "sheet_of w path s = (case files w path of None \<Rightarrow> None | Some wb \<Rightarrow> wb s)"

text \<open>
  \<^verbatim>\<open>pd.read_excel(path, sheet_name=s)\<close>: raises when the file or the sheet is missing, and
  returns the stored sheet as pandas parses it.
\<close>

definition read_excel :: "env \<Rightarrow> pystr \<Rightarrow> pystr \<Rightarrow> world \<Rightarrow> (exn + frame) \<times> world" where
  "read_excel e path s w =
     (case do_act e (ReadExcel path s) w of
        (Inl x, w1) \<Rightarrow> (Inl x, w1)
      | (Inr _, w1) \<Rightarrow>
          (case files w1 path of
             None \<Rightarrow> (Inl FileNotFoundError, w1)
           | Some wb \<Rightarrow>
               (case wb s of
                  None \<Rightarrow> (Inl ValueError, w1)
                | Some f \<Rightarrow> (Inr (read_back e f), w1))))"

text \<open>
  Writing one sheet. Mode \<^verbatim>\<open>"w"\<close> makes a new workbook holding only that sheet; mode
  \<^verbatim>\<open>"a"\<close> with \<^verbatim>\<open>if_sheet_exists="replace"\<close> needs the file and replaces or adds the sheet.
\<close>

definition excel_write :: "env \<Rightarrow> pystr \<Rightarrow> mode \<Rightarrow> pystr \<Rightarrow> frame \<Rightarrow> world \<Rightarrow> (exn + unit) \<times> world" where
  "excel_write e path md s df w =
     (case do_act e (WriteExcel path md s) w of
        (Inl x, w1) \<Rightarrow> (Inl x, w1)
      | (Inr _, w1) \<Rightarrow>
          (case md of
             ModeW \<Rightarrow> (Inr (), w1\<lparr>files := (files w1)(path \<mapsto> [s \<mapsto> df])\<rparr>)
           | ModeA \<Rightarrow>
               (case files w1 path of
                  None \<Rightarrow> (Inl FileNotFoundError, w1)
                | Some wb \<Rightarrow> (Inr (), w1\<lparr>files := (files w1)(path \<mapsto> wb(s \<mapsto> df))\<rparr>))))"

definition reindex :: "pystr list \<Rightarrow> pystr list \<Rightarrow> cell list \<Rightarrow> cell list" where
  "reindex cols new_cols row =
     map (\<lambda>c. case map_of (zip cols row) c of None \<Rightarrow> None | Some v \<Rightarrow> v) new_cols"

text \<open>
  \<^verbatim>\<open>pd.concat([a, b], ignore_index=True)\<close>: with equal column labels the rows of \<open>b\<close> follow
  those of \<open>a\<close>; otherwise the columns are the union in order of appearance and every row is
  aligned to it by label, the missing cells NaN; aligning needs unique labels.
\<close>

definition pd_concat :: "frame \<Rightarrow> frame \<Rightarrow> exn + frame" where
  "pd_concat a b =
     (if columns a = columns b then Inr \<lparr>columns = columns a, rows = rows a @ rows b\<rparr>
      else if distinct (columns a) \<and> distinct (columns b) then
        (let cols = columns a @ filter (\<lambda>c. c \<notin> set (columns a)) (columns b)
         in Inr \<lparr>columns = cols,
                 rows = map (reindex (columns a) cols) (rows a) @
                        map (reindex (columns b) cols) (rows b)\<rparr>)
      else Inl InvalidIndexError)"

section \<open>append_to_excel\<close>

definition append_to_excel :: "env \<Rightarrow> frame \<Rightarrow> pystr \<Rightarrow> pystr \<Rightarrow> world \<Rightarrow> world" where
  "append_to_excel e df output_file sheet_name w =
     (case
        (if files w output_file = None then excel_write e output_file ModeW sheet_name df w
         else
           (case
              (case read_excel e output_file sheet_name w of
                 (Inl x, w1) \<Rightarrow> (None, log Warning (SheetMissing sheet_name) w1)
               | (Inr f, w1) \<Rightarrow> (Some f, w1))
            of (existing_df, w1) \<Rightarrow>
              (case (case existing_df of None \<Rightarrow> Inr df | Some ex \<Rightarrow> pd_concat ex df) of
                 Inl x \<Rightarrow> (Inl x, w1)
               | Inr df' \<Rightarrow> excel_write e output_file ModeA sheet_name df' w1)))
      of
        (Inl x, w2) \<Rightarrow> log Error (ExcelError x) w2
      | (Inr _, w2) \<Rightarrow> log Info (DataAppended output_file sheet_name) w2)"

section \<open>scrape_table\<close>

definition loading_marker :: pystr where
  "loading_marker = [CHR 0xE5, CHR 0x8A, CHR 0xA0, CHR 0xE8, CHR 0xBD, CHR 0xBD, CHR 0xE4, CHR 0xB8, CHR 0xAD]"

definition table_selector :: pystr where
  "table_selector = ''table.table-wrap.expand-table-wrap''"

definition max_retries :: nat where
  "max_retries = 5"

text \<open>
  The polling loop of lines 92 to 99, from the current value of \<open>retries\<close>. It returns
  \<open>Some table_html\<close> when it left by \<^verbatim>\<open>break\<close> (\<open>table_loaded\<close> is true), \<open>None\<close> when the
  retries ran out, and \<open>Inl\<close> when \<^verbatim>\<open>inner_html\<close> raised.
\<close>

function wait_loaded :: "env \<Rightarrow> locator \<Rightarrow> nat \<Rightarrow> world \<Rightarrow> (exn + pystr option) \<times> world" where
  "wait_loaded e table_locator retries w =
     (if retries < max_retries then
        (case get_inner_html e table_locator w of
           (Inl x, w1) \<Rightarrow> (Inl x, w1)
         | (Inr table_html, w1) \<Rightarrow>
             (if \<not> sublist loading_marker table_html then (Inr (Some table_html), w1)
              else wait_loaded e table_locator (retries + 1)
                     (sleep 2 (log Info (StillLoading (retries + 1)) w1))))
      else (Inr None, w))"
  by pat_completeness auto
termination
  by (relation "measure (\<lambda>(e, l, retries, w). max_retries - retries)") auto

declare wait_loaded.simps [simp del]

text \<open>The loop over the body rows, lines 110 to 115: \<open>rs\<close> is the list \<^verbatim>\<open>rows\<close> built so far.\<close>

fun collect_rows :: "pystr list \<Rightarrow> pystr list list \<Rightarrow> pystr list list \<Rightarrow> world \<Rightarrow> pystr list list \<times> world" where
  "collect_rows headers [] rs w = (rs, w)"
| "collect_rows headers (cols # trs) rs w =
     (if length cols = length headers then collect_rows headers trs (rs @ [cols]) w
      else collect_rows headers trs rs (log Warning (IncompleteRow cols) w))"

text \<open>
  \<^verbatim>\<open>pd.DataFrame(rows, columns=headers)\<close>: pandas pads the shorter rows with NaN to the
  length of the longest one, and that length must be the number of columns.
\<close>

definition DataFrame :: "pystr list list \<Rightarrow> pystr list \<Rightarrow> exn + frame" where
  "DataFrame rs cols =
     (if rs = [] \<or> foldr max (map length rs) 0 = length cols
      then Inr \<lparr>columns = cols,
               rows = map (\<lambda>r. map Some r @ replicate (length cols - length r) None) rs\<rparr>
      else Inl ValueError)"

text \<open>
  \<^verbatim>\<open>df.insert(loc, column, value)\<close> with a scalar value: the new column holds the value in
  every row; a label that is already a column is refused.
\<close>

definition df_insert :: "nat \<Rightarrow> pystr \<Rightarrow> pystr \<Rightarrow> frame \<Rightarrow> exn + frame" where
  "df_insert loc c v df =
     (if c \<in> set (columns df) then Inl ValueError
      else if length (columns df) < loc then Inl IndexError
      else Inr \<lparr>columns = take loc (columns df) @ c # drop loc (columns df),
               rows = map (\<lambda>r. take loc r @ Some v # drop loc r) (rows df)\<rparr>)"

definition original_column :: pystr where
  "original_column = ''Original Company Name''"

definition matched_column :: pystr where
  "matched_column = ''Matched Company Name''"

text \<open>Lines 107 to 121: parsing the loaded markup into the frame that is returned.\<close>

definition parse_table :: "env \<Rightarrow> pystr \<Rightarrow> pystr \<Rightarrow> pystr \<Rightarrow> world \<Rightarrow> (exn + frame) \<times> world" where
  "parse_table e table_html original_name matched_name w =
     (case thead (soup e table_html) of
        None \<Rightarrow> (Inl AttributeError, w)
      | Some headers \<Rightarrow>
          (case tbody (soup e table_html) of
             None \<Rightarrow> (Inl AttributeError, w)
           | Some trs \<Rightarrow>
               (case collect_rows headers trs [] w of
                  (rs, w1) \<Rightarrow>
                    (case DataFrame rs headers of
                       Inl x \<Rightarrow> (Inl x, w1)
                     | Inr df \<Rightarrow>
                         (case df_insert 0 original_column original_name df of
                            Inl x \<Rightarrow> (Inl x, w1)
                          | Inr df1 \<Rightarrow>
                              (case df_insert 1 matched_column matched_name df1 of
                                 Inl x \<Rightarrow> (Inl x, w1)
                               | Inr df2 \<Rightarrow> (Inr df2, w1)))))))"

text \<open>
  \<open>scrape_table\<close> catches every exception of its body and returns \<open>None\<close> for it. The debug
  line of the source prints the first 500 characters of the markup, which the message here
  does not carry.
\<close>

definition scrape_table :: "env \<Rightarrow> page \<Rightarrow> pystr \<Rightarrow> pystr \<Rightarrow> pystr \<Rightarrow> world \<Rightarrow> frame option \<times> world" where
  "scrape_table e pg original_name matched_name table_title w =
     (case wait_loaded e (Locator pg table_selector) 0
             (log Info (ScrapingTable table_title original_name) w) of
        (Inl x, w1) \<Rightarrow> (None, log Error (TableError table_title x) w1)
      | (Inr None, w1) \<Rightarrow> (None, log Error (NotLoaded table_title original_name) w1)
      | (Inr (Some table_html), w1) \<Rightarrow>
          (case parse_table e table_html original_name matched_name
                  (log Debug (TableHtml table_title) w1) of
             (Inl x, w2) \<Rightarrow> (None, log Error (TableError table_title x) w2)
           | (Inr df, w2) \<Rightarrow> (Some df, w2)))"

section \<open>scrape_company_tables\<close>

definition output_file :: pystr where
  "output_file = ''L1_share.xlsx''"

definition main_sheet :: pystr where
  "main_sheet = ''Shareholders''"

definition historical_sheet :: pystr where
  "historical_sheet = ''Historical Shareholders''"

definition landing_url :: pystr where
  "landing_url = ''https://www.tianyancha.com/''"

definition search_box_selector :: pystr where
  "search_box_selector = ''input[placeholder='' @ [CHR 0x22, CHR 0xE8, CHR 0xAF, CHR 0xB7, CHR 0xE8, CHR 0xBE, CHR 0x93, CHR 0xE5, CHR 0x85, CHR 0xA5, CHR 0xE5, CHR 0x85, CHR 0xAC, CHR 0xE5, CHR 0x8F, CHR 0xB8, CHR 0xE5, CHR 0x90, CHR 0x8D, CHR 0xE7, CHR 0xA7, CHR 0xB0, CHR 0xE3, CHR 0x80, CHR 0x81, CHR 0xE8, CHR 0x80, CHR 0x81, CHR 0xE6, CHR 0x9D, CHR 0xBF, CHR 0xE5, CHR 0xA7, CHR 0x93, CHR 0xE5, CHR 0x90, CHR 0x8D, CHR 0xE3, CHR 0x80, CHR 0x81, CHR 0xE5, CHR 0x93, CHR 0x81, CHR 0xE7, CHR 0x89, CHR 0x8C, CHR 0xE5, CHR 0x90, CHR 0x8D, CHR 0xE7, CHR 0xA7, CHR 0xB0, CHR 0xE7, CHR 0xAD, CHR 0x89, CHR 0x22] @ '']:visible''"

definition company_link_selector :: pystr where
  "company_link_selector = ''a.index_alink__zcia5''"

definition tab_selector :: pystr where
  "tab_selector = ''span.dim-tab-item''"

definition main_table_title :: pystr where
  "main_table_title = [CHR 0xE8, CHR 0x82, CHR 0xA1, CHR 0xE4, CHR 0xB8, CHR 0x9C, CHR 0xE4, CHR 0xBF, CHR 0xA1, CHR 0xE6, CHR 0x81, CHR 0xAF]"

definition tab_label_1 :: pystr where
  "tab_label_1 = [CHR 0xE5, CHR 0x8E, CHR 0x86, CHR 0xE5, CHR 0x8F, CHR 0xB2, CHR 0xE8, CHR 0x82, CHR 0xA1, CHR 0xE4, CHR 0xB8, CHR 0x9C, CHR 0xE4, CHR 0xBF, CHR 0xA1, CHR 0xE6, CHR 0x81, CHR 0xAF]"

definition tab_label_2 :: pystr where
  "tab_label_2 = [CHR 0xE5, CHR 0x8E, CHR 0x86, CHR 0xE5, CHR 0x8F, CHR 0xB2, CHR 0xE4, CHR 0xB8, CHR 0xBB, CHR 0xE8, CHR 0xA6, CHR 0x81, CHR 0xE8, CHR 0x82, CHR 0xA1, CHR 0xE4, CHR 0xB8, CHR 0x9C]"

text \<open>
  Python's truth test of a locator, as in \<^verbatim>\<open>if not company_link\<close>. Playwright's \<^verbatim>\<open>Locator\<close>
  class defines neither \<^verbatim>\<open>__bool__\<close> nor \<^verbatim>\<open>__len__\<close>, so the test is true for every locator,
  whatever it matches on the page.
\<close>

definition locator_truthy :: "locator \<Rightarrow> bool" where
  "locator_truthy l = True"

text \<open>
  Lines 20 to 36: from filling the search box to the assignment of \<open>popup_page\<close>. The result
  is \<open>Inl\<close> for an exception, \<open>Inr None\<close> for the early \<^verbatim>\<open>return\<close> of line 29, and
  \<open>Inr (Some (company_name_text, popup_page))\<close> when line 36 is reached.
\<close>

definition search_company :: "env \<Rightarrow> page \<Rightarrow> pystr \<Rightarrow> world \<Rightarrow> (exn + (pystr \<times> page) option) \<times> world" where
  "search_company e pg company_name w =
     (let search_box = Nth (Locator pg search_box_selector) 0 in
      case do_act e (Fill search_box company_name) w of
        (Inl x, w1) \<Rightarrow> (Inl x, w1)
      | (Inr _, w1) \<Rightarrow>
          (case do_act e (Press search_box ''Enter'') w1 of
             (Inl x, w2) \<Rightarrow> (Inl x, w2)
           | (Inr _, w2) \<Rightarrow>
               (let w3 = sleep 2 w2;
                    company_link = First (Locator pg company_link_selector)
                in if \<not> locator_truthy company_link
                   then (Inr None, log Warning (NoResults company_name) w3)
                   else
                     (case get_text_content e (Sub_locator company_link ''span em'') w3 of
                        (Inl x, w4) \<Rightarrow> (Inl x, w4)
                      | (Inr None, w4) \<Rightarrow> (Inl AttributeError, w4)
                      | (Inr (Some t), w4) \<Rightarrow>
                          (case click_expect_popup e company_link w4 of
                             (Inl x, w5) \<Rightarrow> (Inl x, w5)
                           | (Inr popup_page, w5) \<Rightarrow>
                               (Inr (Some (strip e t, popup_page)), w5))))))"

text \<open>Lines 42 to 44: the default shareholder table.\<close>

definition main_table_step :: "env \<Rightarrow> page \<Rightarrow> pystr \<Rightarrow> pystr \<Rightarrow> world \<Rightarrow> world" where
  "main_table_step e popup_page company_name company_name_text w =
     (case scrape_table e popup_page company_name company_name_text main_table_title w of
        (None, w1) \<Rightarrow> w1
      | (Some df_shareholders, w1) \<Rightarrow> append_to_excel e df_shareholders output_file main_sheet w1)"

text \<open>
  The loop of lines 50 to 59 over the candidate labels: \<open>Some tab_text\<close> when it left by
  \<^verbatim>\<open>break\<close> (\<open>tab_found\<close> is true and \<open>tab_text\<close> is the label clicked), \<open>None\<close> otherwise.
  The click and the wait of three seconds that follows it are both inside the \<^verbatim>\<open>try\<close> of
  line 51, so an exception of either is caught by line 58 and the next label is tried.
\<close>

fun activate_tab :: "env \<Rightarrow> page \<Rightarrow> pystr list \<Rightarrow> world \<Rightarrow> pystr option \<times> world" where
  "activate_tab e popup_page [] w = (None, w)"
| "activate_tab e popup_page (tab_text # rest) w =
     (case do_act e (Click (Has_text (Locator popup_page tab_selector) tab_text)) w of
        (Inl x, w1) \<Rightarrow> activate_tab e popup_page rest (log Warning (TabNotFound tab_text) w1)
      | (Inr _, w1) \<Rightarrow>
          (case do_act e (WaitForTimeout popup_page 3000) w1 of
             (Inl x, w2) \<Rightarrow>
               activate_tab e popup_page rest (log Warning (TabNotFound tab_text) w2)
           | (Inr _, w2) \<Rightarrow> (Some tab_text, log Info (ClickedTab tab_text) w2)))"

text \<open>
  Lines 47 to 69: the historical table. Nothing inside its \<^verbatim>\<open>try\<close> can raise in this model
  (the click and the wait are guarded, \<open>scrape_table\<close> and \<open>append_to_excel\<close> catch their
  own exceptions), so the handler of line 68 has no branch.
\<close>

definition historical_step :: "env \<Rightarrow> page \<Rightarrow> pystr \<Rightarrow> pystr \<Rightarrow> world \<Rightarrow> world" where
  "historical_step e popup_page company_name company_name_text w =
     (case activate_tab e popup_page [tab_label_1, tab_label_2] (log Info AttemptHistorical w) of
        (None, w1) \<Rightarrow> log Error (NoHistoricalTab company_name) w1
      | (Some tab_text, w1) \<Rightarrow>
          (case scrape_table e popup_page company_name company_name_text tab_text w1 of
             (None, w2) \<Rightarrow> w2
           | (Some df_historical, w2) \<Rightarrow>
               append_to_excel e df_historical output_file historical_sheet w2))"

text \<open>Lines 37 to 69: what is done with the popup once it is bound.\<close>

definition scrape_popup :: "env \<Rightarrow> page \<Rightarrow> pystr \<Rightarrow> pystr \<Rightarrow> world \<Rightarrow> (exn + unit) \<times> world" where
  "scrape_popup e popup_page company_name company_name_text w =
     (case do_act e (WaitForLoadState popup_page ''domcontentloaded'') w of
        (Inl x, w1) \<Rightarrow> (Inl x, w1)
      | (Inr _, w1) \<Rightarrow>
          (Inr (),
           historical_step e popup_page company_name company_name_text
             (main_table_step e popup_page company_name company_name_text
                (log Info (PopupLoaded company_name) w1))))"

text \<open>
  Lines 19 to 69, the body of the outer \<^verbatim>\<open>try\<close>. The first component of the result is the
  local variable \<open>popup_page\<close> as the body leaves it (\<open>None\<close> while unbound), the second is
  \<open>Inl\<close> for the exception the body raised.
\<close>

definition company_body :: "env \<Rightarrow> page \<Rightarrow> pystr \<Rightarrow> world \<Rightarrow> page option \<times> (exn + unit) \<times> world" where
  "company_body e pg company_name w =
     (case search_company e pg company_name (log Info (StartScrape company_name) w) of
        (Inl x, w1) \<Rightarrow> (None, Inl x, w1)
      | (Inr None, w1) \<Rightarrow> (None, Inr (), w1)
      | (Inr (Some (company_name_text, popup_page)), w1) \<Rightarrow>
          (case scrape_popup e popup_page company_name company_name_text w1 of
             (r, w2) \<Rightarrow> (Some popup_page, r, w2)))"

text \<open>
  The whole function: the body, the handler of line 71, then the \<^verbatim>\<open>finally\<close> block. Closing
  an unbound \<open>popup_page\<close> raises \<^verbatim>\<open>UnboundLocalError\<close>, which line 77 swallows like any
  error of \<^verbatim>\<open>close\<close>; line 79 is outside every handler, so what \<^verbatim>\<open>page.goto\<close> raises is
  the result.
\<close>

definition scrape_company_tables :: "env \<Rightarrow> page \<Rightarrow> pystr \<Rightarrow> world \<Rightarrow> (exn + unit) \<times> world" where
  "scrape_company_tables e pg company_name w =
     (case company_body e pg company_name w of
        (popup_page, r, w2) \<Rightarrow>
          (let w3 = (case r of Inl x \<Rightarrow> log Error (CompanyError company_name x) w2 | Inr _ \<Rightarrow> w2);
               w4 = (case popup_page of None \<Rightarrow> w3 | Some p \<Rightarrow> snd (do_act e (Close p) w3))
           in do_act e (Goto pg landing_url) w4))"

section \<open>run\<close>

text \<open>The loop of lines 191 and 192: an exception leaving one call ends the loop.\<close>

fun for_companies :: "env \<Rightarrow> page \<Rightarrow> pystr list \<Rightarrow> world \<Rightarrow> (exn + unit) \<times> world" where
  "for_companies e pg [] w = (Inr (), w)"
| "for_companies e pg (company_name # rest) w =
     (case scrape_company_tables e pg company_name w of
        (Inl x, w1) \<Rightarrow> (Inl x, w1)
      | (Inr _, w1) \<Rightarrow> for_companies e pg rest w1)"

text \<open>
  \<open>run\<close> from line 190 on, with the page and the list of companies that the lines before it
  (launching the browser, the login, reading the input file) produce: the loop, the handler
  of line 194 and the \<^verbatim>\<open>finally\<close> block that closes the browser, ignoring what that raises.
\<close>

definition run :: "env \<Rightarrow> page \<Rightarrow> pystr list \<Rightarrow> world \<Rightarrow> world" where
  "run e pg company_list w =
     (let w2 = (case for_companies e pg company_list w of
                  (Inl x, w1) \<Rightarrow> log Critical (UnexpectedError x) w1
                | (Inr _, w1) \<Rightarrow> w1)
      in snd (do_act e BrowserClose w2))"

section \<open>Notions used to state the properties\<close>

text \<open>
  The events that the steps working on the popup (lines 37 to 69) can add to the trace:
  neither the log lines of the outer function and of \<open>run\<close>, nor the calls on the search
  page, nor the two calls of the \<^verbatim>\<open>finally\<close> block.
\<close>

definition inner_event :: "event \<Rightarrow> bool" where
  "inner_event ev =
     (case ev of
        Log lvl m \<Rightarrow>
          (case m of
             StartScrape _ \<Rightarrow> False
           | NoResults _ \<Rightarrow> False
           | CompanyError _ _ \<Rightarrow> False
           | UnexpectedError _ \<Rightarrow> False
           | _ \<Rightarrow> True)
      | Act a r \<Rightarrow>
          (case a of
             Click _ \<Rightarrow> True
           | WaitForLoadState _ _ \<Rightarrow> True
           | WaitForTimeout _ _ \<Rightarrow> True
           | ReadExcel _ _ \<Rightarrow> True
           | WriteExcel _ _ _ \<Rightarrow> True
           | _ \<Rightarrow> False)
      | TextContent _ _ \<Rightarrow> False
      | ExpectPopup _ _ \<Rightarrow> False
      | _ \<Rightarrow> True)"

definition inner :: "world \<Rightarrow> world \<Rightarrow> bool" where
  "inner w w' = (\<exists>evs. trace w' = trace w @ evs \<and> list_all inner_event evs)"

text \<open>
  The companies whose processing was started, in the order of the trace: line 19 logs the
  company as the first statement of every call of \<open>scrape_company_tables\<close>.
\<close>

definition start_of :: "event \<Rightarrow> pystr option" where
  "start_of ev =
     (case ev of
        Log lvl m \<Rightarrow> (case m of StartScrape c \<Rightarrow> Some c | _ \<Rightarrow> None)
      | _ \<Rightarrow> None)"

definition started :: "event list \<Rightarrow> pystr list" where
  "started evs = List.map_filter start_of evs"

text \<open>The events that the body of the outer \<^verbatim>\<open>try\<close> can add after its first log line.\<close>

definition body_event :: "event \<Rightarrow> bool" where
  "body_event ev =
     (case ev of
        Log lvl m \<Rightarrow>
          (case m of
             StartScrape _ \<Rightarrow> False
           | NoResults _ \<Rightarrow> False
           | CompanyError _ _ \<Rightarrow> False
           | UnexpectedError _ \<Rightarrow> False
           | _ \<Rightarrow> True)
      | Act a r \<Rightarrow>
          (case a of
             Close _ \<Rightarrow> False
           | Goto _ _ \<Rightarrow> False
           | BrowserClose \<Rightarrow> False
           | _ \<Rightarrow> True)
      | _ \<Rightarrow> True)"

section \<open>Example inputs\<close>

definition example_html :: pystr where
  "example_html = ''<thead><th>Name</th><th>Share</th></thead><tbody><tr><td>Li</td><td>60%</td></tr><tr><td>Wang</td></tr><tr><td>Zhao</td><td>40%</td></tr></tbody>''"

definition example_parsed :: parsed where
  "example_parsed =
     \<lparr>thead = Some [''Name'', ''Share''],
      tbody = Some [[''Li'', ''60%''], [''Wang''], [''Zhao'', ''40%'']]\<rparr>"

definition env_ok :: env where
  "env_ok =
     \<lparr>act = (\<lambda>h a. None),
      text_content = (\<lambda>h l. Inr (Some ''Acme Ltd'')),
      inner_html = (\<lambda>h l. Inr example_html),
      expect_popup = (\<lambda>h l. Inr (Page 1)),
      soup = (\<lambda>s. example_parsed),
      strip = (\<lambda>s. s),
      read_back = (\<lambda>f. f)\<rparr>"

definition env_locked :: env where
  "env_locked =
     env_ok\<lparr>act := (\<lambda>h a. case a of WriteExcel p md s \<Rightarrow> Some (OSError ''Permission denied'') | _ \<Rightarrow> None)\<rparr>"

definition example_columns :: "pystr list" where
  "example_columns = [original_column, matched_column, ''Name'', ''Share'']"

definition frame_a :: frame where
  "frame_a = \<lparr>columns = example_columns, rows = [[Some ''Acme'', Some ''Acme Ltd'', Some ''Li'', Some ''60%'']]\<rparr>"

definition frame_b :: frame where
  "frame_b = \<lparr>columns = example_columns, rows = [[Some ''Bolt'', Some ''Bolt Ltd'', Some ''Zhao'', Some ''40%'']]\<rparr>"

definition world_empty :: world where
  "world_empty = \<lparr>files = Map.empty, trace = []\<rparr>"

definition world_a :: world where
  "world_a = \<lparr>files = [output_file \<mapsto> [main_sheet \<mapsto> frame_a]], trace = []\<rparr>"

definition loading_html :: pystr where
  "loading_html = ''<tbody><tr><td>'' @ loading_marker @ ''</td></tr></tbody>''"

definition env_loading :: env where
  "env_loading = env_ok\<lparr>inner_html := (\<lambda>h l. Inr loading_html)\<rparr>"

definition navigation_error :: exn where
  "navigation_error = PlaywrightError ''net::ERR_CONNECTION_RESET''"

definition timeout_error :: exn where
  "timeout_error = PlaywrightError ''Timeout 30000ms exceeded''"

definition env_nav_down :: env where
  "env_nav_down =
     env_ok\<lparr>act := (\<lambda>h a. case a of Goto p u \<Rightarrow> Some navigation_error | _ \<Rightarrow> None)\<rparr>"

definition env_no_match :: env where
  "env_no_match = env_ok\<lparr>text_content := (\<lambda>h l. Inl timeout_error)\<rparr>"

fun last_fill :: "event list \<Rightarrow> pystr option" where
  "last_fill [] = None"
| "last_fill (ev # evs) =
     (case ev of
        Act a r \<Rightarrow> (case a of Fill l c \<Rightarrow> Some c | _ \<Rightarrow> last_fill evs)
      | _ \<Rightarrow> last_fill evs)"

definition env_second_missing :: env where
  "env_second_missing =
     env_ok\<lparr>text_content :=
       (\<lambda>h l. if last_fill (rev h) = Some ''Bolt'' then Inl timeout_error
               else Inr (Some ''Acme Ltd''))\<rparr>"

definition env_popup_stuck :: env where
  "env_popup_stuck =
     env_ok\<lparr>act := (\<lambda>h a. case a of WaitForLoadState p st \<Rightarrow> Some timeout_error | _ \<Rightarrow> None)\<rparr>"

definition env_second_tab :: env where
  "env_second_tab =
     env_ok\<lparr>act :=
       (\<lambda>h a. case a of
                 Click l \<Rightarrow>
                   (if l = Has_text (Locator (Page 1) tab_selector) tab_label_2 then None
                    else Some timeout_error)
               | _ \<Rightarrow> None)\<rparr>"

definition env_no_tabs :: env where
  "env_no_tabs =
     env_ok\<lparr>act := (\<lambda>h a. case a of Click l \<Rightarrow> Some timeout_error | _ \<Rightarrow> None)\<rparr>"

text \<open>
  The events of one candidate label that was not activated: its click raised, or its click
  returned and the wait that follows raised; either way line 59 logs the label as not
  found. And the events of the label that was activated.
\<close>

definition raised :: "event \<Rightarrow> action \<Rightarrow> bool" where
  "raised ev a = (case ev of Act b r \<Rightarrow> b = a \<and> r \<noteq> None | _ \<Rightarrow> False)"

definition failed_attempt :: "page \<Rightarrow> pystr \<Rightarrow> event list \<Rightarrow> bool" where
  "failed_attempt p l evs =
     (case evs of
        [ev1, ev2] \<Rightarrow>
          raised ev1 (Click (Has_text (Locator p tab_selector) l)) \<and>
          ev2 = Log Warning (TabNotFound l)
      | [ev1, ev2, ev3] \<Rightarrow>
          ev1 = Act (Click (Has_text (Locator p tab_selector) l)) None \<and>
          raised ev2 (WaitForTimeout p 3000) \<and>
          ev3 = Log Warning (TabNotFound l)
      | _ \<Rightarrow> False)"

definition activation :: "page \<Rightarrow> pystr \<Rightarrow> event list" where
  "activation p l =
     [Act (Click (Has_text (Locator p tab_selector) l)) None,
      Act (WaitForTimeout p 3000) None,
      Log Info (ClickedTab l)]"

definition env_settle_fails :: env where
  "env_settle_fails =
     env_ok\<lparr>act := (\<lambda>h a. case a of WaitForTimeout p n \<Rightarrow> Some timeout_error | _ \<Rightarrow> None)\<rparr>"

definition env_unreadable :: env where
  "env_unreadable =
     env_ok\<lparr>act := (\<lambda>h a. case a of ReadExcel p s \<Rightarrow> Some (OSError ''Permission denied'') | _ \<Rightarrow> None)\<rparr>"

text \<open>
  Two things \<^verbatim>\<open>pd.read_excel\<close> does to a stored sheet: it reads the text \<^verbatim>\<open>001\<close> as the
  number 1 and an empty text as NaN, and it renames the second of two equal labels.
\<close>

definition retype_cell :: "cell \<Rightarrow> cell" where
  "retype_cell c = (if c = Some ''001'' then Some ''1'' else if c = Some [] then None else c)"

definition env_retype :: env where
  "env_retype = env_ok\<lparr>read_back := (\<lambda>f. f\<lparr>rows := map (map retype_cell) (rows f)\<rparr>)\<rparr>"

definition frame_codes :: frame where
  "frame_codes = \<lparr>columns = example_columns, rows = [[Some ''Acme'', Some ''Acme Ltd'', Some ''Li'', Some ''001'']]\<rparr>"

definition world_codes :: world where
  "world_codes = \<lparr>files = [output_file \<mapsto> [main_sheet \<mapsto> frame_codes]], trace = []\<rparr>"

definition frame_dated :: frame where
  "frame_dated = \<lparr>columns = [original_column, matched_column, ''Name'', ''Date''], rows = [[Some ''Bolt'', Some ''Bolt Ltd'', Some ''Zhao'', Some ''2020'']]\<rparr>"

definition frame_twin :: frame where
  "frame_twin = \<lparr>columns = [original_column, matched_column, ''A'', ''A''], rows = [[Some ''Acme'', Some ''Acme Ltd'', Some ''x'', Some ''y'']]\<rparr>"

definition world_twin :: world where
  "world_twin = \<lparr>files = [output_file \<mapsto> [main_sheet \<mapsto> frame_twin]], trace = []\<rparr>"

definition env_rename :: env where
  "env_rename =
     env_ok\<lparr>read_back :=
       (\<lambda>f. if columns f = [original_column, matched_column, ''A'', ''A'']
            then f\<lparr>columns := [original_column, matched_column, ''A'', ''A.1'']\<rparr> else f)\<rparr>"

section \<open>Effects only extend the trace\<close>

lemma trace_log [simp]: "trace (log lvl m w) = trace w @ [Log lvl m]"
  by (simp add: log_def)

lemma files_log [simp]: "files (log lvl m w) = files w"
  by (simp add: log_def)

lemma sheet_of_log [simp]: "sheet_of (log lvl m w) p s = sheet_of w p s"
  by (simp add: sheet_of_def)

lemma do_act_files [simp]: "files (snd (do_act e a w)) = files w"
  by (simp add: do_act_def Let_def)

lemma do_act_trace [simp]:
  "trace (snd (do_act e a w)) = trace w @ [Act a (act e (trace w) a)]"
  by (simp add: do_act_def Let_def)

lemma excel_write_frame:
  assumes "s' \<noteq> s" and "md = ModeW \<longrightarrow> files w path = None"
  shows "sheet_of (snd (excel_write e path md s df w)) p s' = sheet_of w p s'"
proof -
  obtain r w1 where d: "do_act e (WriteExcel path md s) w = (r, w1)"
    by (cases "do_act e (WriteExcel path md s) w")
  then have f: "files w1 = files w"
    using do_act_files [of e "WriteExcel path md s" w] by simp
  show ?thesis
  proof (cases r)
    case (Inl x)
    with d f show ?thesis by (simp add: excel_write_def sheet_of_def)
  next
    case (Inr u)
    show ?thesis
    proof (cases md)
      case ModeW
      with d f Inr assms show ?thesis
        by (auto simp: excel_write_def sheet_of_def)
    next
      case ModeA
      with d f Inr assms show ?thesis
        by (cases "files w path") (auto simp: excel_write_def sheet_of_def)
    qed
  qed
qed

lemma inner_refl: "inner w w"
  by (simp add: inner_def)

lemma inner_trans: "inner w w1 \<Longrightarrow> inner w1 w2 \<Longrightarrow> inner w w2"
  by (auto simp: inner_def)

lemma inner_log: "inner_event (Log lvl m) \<Longrightarrow> inner w w1 \<Longrightarrow> inner w (log lvl m w1)"
  by (auto simp: inner_def)

lemma inner_sleep: "inner w w1 \<Longrightarrow> inner w (sleep n w1)"
  by (auto simp: inner_def sleep_def inner_event_def)

lemma inner_do_act:
  "inner w w1 \<Longrightarrow> do_act e a w1 = (r, w2) \<Longrightarrow> inner_event (Act a None) \<Longrightarrow> inner w w2"
  by (auto simp: inner_def do_act_def Let_def inner_event_def split: action.splits)

lemma inner_get_inner_html:
  "inner w w1 \<Longrightarrow> get_inner_html e l w1 = (r, w2) \<Longrightarrow> inner w w2"
  by (auto simp: inner_def get_inner_html_def Let_def inner_event_def)

lemma inner_read_excel:
  "inner w w1 \<Longrightarrow> read_excel e path s w1 = (r, w2) \<Longrightarrow> inner w w2"
  by (auto simp: read_excel_def inner_event_def split: prod.splits sum.splits option.splits
      intro: inner_do_act)

lemma inner_excel_write:
  "inner w w1 \<Longrightarrow> excel_write e path md s df w1 = (r, w2) \<Longrightarrow> inner w w2"
  by (auto simp: excel_write_def inner_event_def inner_def do_act_def Let_def
        split: prod.splits sum.splits option.splits mode.splits)

lemma inner_event_log:
  "inner_event (Log lvl (PopupLoaded c))" "inner_event (Log lvl AttemptHistorical)"
  "inner_event (Log lvl (ClickedTab t))" "inner_event (Log lvl (TabNotFound t))"
  "inner_event (Log lvl (NoHistoricalTab c))" "inner_event (Log lvl (HistoricalError c x))"
  "inner_event (Log lvl (ScrapingTable t c))" "inner_event (Log lvl (StillLoading n))"
  "inner_event (Log lvl (NotLoaded t c))" "inner_event (Log lvl (TableHtml t))"
  "inner_event (Log lvl (IncompleteRow cols))" "inner_event (Log lvl (TableError t x))"
  "inner_event (Log lvl (SheetMissing s))" "inner_event (Log lvl (DataAppended p s))"
  "inner_event (Log lvl (ExcelError x))"
  by (simp_all add: inner_event_def)

lemma inner_append_to_excel:
  assumes "inner w w1"
  shows "inner w (append_to_excel e df path s w1)"
proof (cases "files w1 path = None")
  case True
  obtain r w2 where x: "excel_write e path ModeW s df w1 = (r, w2)"
    by (cases "excel_write e path ModeW s df w1")
  have "inner w w2" using assms x by (rule inner_excel_write)
  with True x show ?thesis
    by (cases r) (simp_all add: append_to_excel_def inner_log inner_event_log)
next
  case False
  then obtain wb where wb: "files w1 path = Some wb" by auto
  obtain r1 w2 where rd: "read_excel e path s w1 = (r1, w2)"
    by (cases "read_excel e path s w1")
  have i2: "inner w w2" using assms rd by (rule inner_read_excel)
  define ex where "ex = (case r1 of Inl x \<Rightarrow> None | Inr f \<Rightarrow> Some f)"
  define w3 where "w3 = (case r1 of Inl x \<Rightarrow> log Warning (SheetMissing s) w2 | Inr f \<Rightarrow> w2)"
  have i3: "inner w w3"
    unfolding w3_def using i2 by (cases r1) (simp_all add: inner_log inner_event_log)
  have step: "(case read_excel e path s w1 of
                 (Inl x, w1) \<Rightarrow> (None, log Warning (SheetMissing s) w1)
               | (Inr f, w1) \<Rightarrow> (Some f, w1)) = (ex, w3)"
    using rd by (cases r1) (simp_all add: ex_def w3_def)
  show ?thesis
  proof (cases "case ex of None \<Rightarrow> Inr df | Some ex' \<Rightarrow> pd_concat ex' df")
    case (Inl x)
    with wb step i3 show ?thesis
      by (simp add: append_to_excel_def inner_log inner_event_log)
  next
    case (Inr df')
    obtain r w4 where x: "excel_write e path ModeA s df' w3 = (r, w4)"
      by (cases "excel_write e path ModeA s df' w3")
    have "inner w w4" using i3 x by (rule inner_excel_write)
    with wb step Inr x show ?thesis
      by (cases r) (simp_all add: append_to_excel_def inner_log inner_event_log)
  qed
qed

lemma inner_wait_loaded:
  "inner w w1 \<Longrightarrow> wait_loaded e l n w1 = (r, w2) \<Longrightarrow> inner w w2"
proof (induction e l n w1 arbitrary: r w2 rule: wait_loaded.induct)
  case (1 e l n w1)
  show ?case
  proof (cases "n < max_retries")
    case False
    with "1.prems" show ?thesis by (simp add: wait_loaded.simps)
  next
    case True
    obtain r1 w3 where g: "get_inner_html e l w1 = (r1, w3)"
      by (cases "get_inner_html e l w1")
    have i3: "inner w w3" using "1.prems"(1) g by (rule inner_get_inner_html)
    show ?thesis
    proof (cases r1)
      case (Inl x)
      with True g "1.prems"(2) i3 show ?thesis by (simp add: wait_loaded.simps)
    next
      case (Inr html)
      show ?thesis
      proof (cases "sublist loading_marker html")
        case False
        with Inr True g "1.prems"(2) i3 show ?thesis by (simp add: wait_loaded.simps)
      next
        case marker: True
        have "inner w (sleep 2 (log Info (StillLoading (n + 1)) w3))"
          by (intro inner_sleep inner_log inner_event_log i3)
        moreover have "wait_loaded e l (n + 1) (sleep 2 (log Info (StillLoading (n + 1)) w3)) = (r, w2)"
          using "1.prems"(2) True g Inr marker by (simp add: wait_loaded.simps)
        ultimately show ?thesis
          using "1.IH" [OF True g [symmetric] Inr _ _ ] marker by blast
      qed
    qed
  qed
qed

lemma inner_collect_rows:
  "inner w w1 \<Longrightarrow> collect_rows hs trs rs w1 = (rs', w2) \<Longrightarrow> inner w w2"
  by (induction hs trs rs w1 rule: collect_rows.induct)
     (auto intro: inner_log inner_event_log split: if_splits)

lemma inner_parse_table:
  assumes "inner w w1" and "parse_table e html o_name m_name w1 = (r, w2)"
  shows "inner w w2"
proof (cases "thead (soup e html)")
  case None
  with assms show ?thesis by (simp add: parse_table_def)
next
  case hs: (Some headers)
  show ?thesis
  proof (cases "tbody (soup e html)")
    case None
    with hs assms show ?thesis by (simp add: parse_table_def)
  next
    case (Some trs)
    obtain rs w3 where c: "collect_rows headers trs [] w1 = (rs, w3)"
      by (cases "collect_rows headers trs [] w1")
    have "inner w w3" using assms(1) c by (rule inner_collect_rows)
    moreover have "w2 = w3"
      using assms(2) hs Some c
      by (simp add: parse_table_def split: sum.splits)
    ultimately show ?thesis by simp
  qed
qed

lemma inner_scrape_table:
  assumes "inner w w1" and "scrape_table e pg o_name m_name t w1 = (r, w2)"
  shows "inner w w2"
proof -
  obtain r1 w3 where wl:
    "wait_loaded e (Locator pg table_selector) 0 (log Info (ScrapingTable t o_name) w1) = (r1, w3)"
    by (cases "wait_loaded e (Locator pg table_selector) 0 (log Info (ScrapingTable t o_name) w1)")
  have "inner w (log Info (ScrapingTable t o_name) w1)"
    using assms(1) by (simp add: inner_log inner_event_log)
  then have i3: "inner w w3" using wl by (rule inner_wait_loaded)
  show ?thesis
  proof (cases r1)
    case (Inl x)
    with wl assms(2) i3 show ?thesis
      by (auto simp: scrape_table_def inner_log inner_event_log)
  next
    case (Inr ho)
    show ?thesis
    proof (cases ho)
      case None
      with Inr wl assms(2) i3 show ?thesis
        by (auto simp: scrape_table_def inner_log inner_event_log)
    next
      case (Some html)
      obtain r2 w4 where pt:
        "parse_table e html o_name m_name (log Debug (TableHtml t) w3) = (r2, w4)"
        by (cases "parse_table e html o_name m_name (log Debug (TableHtml t) w3)")
      have "inner w (log Debug (TableHtml t) w3)"
        using i3 by (simp add: inner_log inner_event_log)
      then have "inner w w4" using pt by (rule inner_parse_table)
      with Some Inr wl pt assms(2) show ?thesis
        by (cases r2) (auto simp: scrape_table_def inner_log inner_event_log)
    qed
  qed
qed

lemma inner_main_table_step:
  assumes "inner w w1"
  shows "inner w (main_table_step e p c m w1)"
proof -
  obtain r w2 where st: "scrape_table e p c m main_table_title w1 = (r, w2)"
    by (cases "scrape_table e p c m main_table_title w1")
  have "inner w w2" using assms st by (rule inner_scrape_table)
  with st show ?thesis
    by (cases r) (simp_all add: main_table_step_def inner_append_to_excel)
qed

lemma inner_activate_tab:
  "inner w w1 \<Longrightarrow> activate_tab e p ls w1 = (r, w2) \<Longrightarrow> inner w w2"
proof (induction ls arbitrary: w1)
  case Nil
  then show ?case by simp
next
  case (Cons l ls)
  obtain r1 w3 where d: "do_act e (Click (Has_text (Locator p tab_selector) l)) w1 = (r1, w3)"
    by (cases "do_act e (Click (Has_text (Locator p tab_selector) l)) w1")
  have i3: "inner w w3"
    using Cons.prems(1) d by (rule inner_do_act) (simp add: inner_event_def)
  show ?case
  proof (cases r1)
    case (Inl x)
    with Cons.prems(2) d have "activate_tab e p ls (log Warning (TabNotFound l) w3) = (r, w2)"
      by simp
    moreover have "inner w (log Warning (TabNotFound l) w3)"
      by (intro inner_log inner_event_log i3)
    ultimately show ?thesis using Cons.IH by blast
  next
    case (Inr u)
    obtain r2 w4 where d2: "do_act e (WaitForTimeout p 3000) w3 = (r2, w4)"
      by (cases "do_act e (WaitForTimeout p 3000) w3")
    have i4: "inner w w4"
      using i3 d2 by (rule inner_do_act) (simp add: inner_event_def)
    show ?thesis
    proof (cases r2)
      case (Inl x)
      with Inr Cons.prems(2) d d2
      have "activate_tab e p ls (log Warning (TabNotFound l) w4) = (r, w2)"
        by simp
      moreover have "inner w (log Warning (TabNotFound l) w4)"
        by (intro inner_log inner_event_log i4)
      ultimately show ?thesis using Cons.IH by blast
    next
      case ok: (Inr u')
      with Inr Cons.prems(2) d d2 have "w2 = log Info (ClickedTab l) w4"
        by simp
      then show ?thesis
        by (simp add: inner_log inner_event_log i4)
    qed
  qed
qed

lemma inner_historical_step:
  assumes "inner w w1"
  shows "inner w (historical_step e p c m w1)"
proof -
  obtain r1 w2 where a:
    "activate_tab e p [tab_label_1, tab_label_2] (log Info AttemptHistorical w1) = (r1, w2)"
    by (cases "activate_tab e p [tab_label_1, tab_label_2] (log Info AttemptHistorical w1)")
  have "inner w (log Info AttemptHistorical w1)"
    using assms by (simp add: inner_log inner_event_log)
  then have i2: "inner w w2" using a by (rule inner_activate_tab)
  show ?thesis
  proof (cases r1)
    case None
    with a i2 show ?thesis
      by (simp add: historical_step_def inner_log inner_event_log)
  next
    case (Some tab_text)
    obtain r2 w3 where st: "scrape_table e p c m tab_text w2 = (r2, w3)"
      by (cases "scrape_table e p c m tab_text w2")
    have "inner w w3" using i2 st by (rule inner_scrape_table)
    with Some a st show ?thesis
      by (cases r2) (simp_all add: historical_step_def inner_append_to_excel)
  qed
qed

lemma inner_scrape_popup:
  assumes "inner w w1" and "scrape_popup e p c m w1 = (r, w2)"
  shows "inner w w2"
proof -
  obtain r1 w3 where d: "do_act e (WaitForLoadState p ''domcontentloaded'') w1 = (r1, w3)"
    by (cases "do_act e (WaitForLoadState p ''domcontentloaded'') w1")
  have i3: "inner w w3"
    using assms(1) d by (rule inner_do_act) (simp add: inner_event_def)
  show ?thesis
  proof (cases r1)
    case (Inl x)
    with d assms(2) i3 show ?thesis by (simp add: scrape_popup_def)
  next
    case (Inr u)
    have "inner w (historical_step e p c m (main_table_step e p c m (log Info (PopupLoaded c) w3)))"
      by (intro inner_historical_step inner_main_table_step inner_log inner_event_log i3)
    with Inr d assms(2) show ?thesis by (simp add: scrape_popup_def)
  qed
qed

lemma files_sleep [simp]: "files (sleep n w) = files w"
  by (simp add: sleep_def)

lemma files_do_act: "do_act e a w = (r, w1) \<Longrightarrow> files w1 = files w"
  by (auto simp: do_act_def Let_def)

lemma files_get_inner_html: "get_inner_html e l w = (r, w1) \<Longrightarrow> files w1 = files w"
  by (auto simp: get_inner_html_def Let_def)

lemma files_read_excel: "read_excel e path s w = (r, w1) \<Longrightarrow> files w1 = files w"
  by (auto simp: read_excel_def split: prod.splits sum.splits option.splits dest: files_do_act)

lemma files_wait_loaded: "wait_loaded e l n w = (r, w1) \<Longrightarrow> files w1 = files w"
proof (induction e l n w arbitrary: r w1 rule: wait_loaded.induct)
  case (1 e l n w)
  show ?case
  proof (cases "n < max_retries")
    case False
    with "1.prems" show ?thesis by (simp add: wait_loaded.simps)
  next
    case True
    obtain r1 w3 where g: "get_inner_html e l w = (r1, w3)"
      by (cases "get_inner_html e l w")
    have f3: "files w3 = files w" using g by (rule files_get_inner_html)
    show ?thesis
    proof (cases r1)
      case (Inl x)
      with True g "1.prems" f3 show ?thesis by (simp add: wait_loaded.simps)
    next
      case (Inr html)
      show ?thesis
      proof (cases "sublist loading_marker html")
        case False
        with Inr True g "1.prems" f3 show ?thesis by (simp add: wait_loaded.simps)
      next
        case marker: True
        have "wait_loaded e l (n + 1) (sleep 2 (log Info (StillLoading (n + 1)) w3)) = (r, w1)"
          using "1.prems" True g Inr marker by (simp add: wait_loaded.simps)
        then have "files w1 = files (sleep 2 (log Info (StillLoading (n + 1)) w3))"
          using "1.IH" [OF True g [symmetric] Inr] marker by blast
        with f3 show ?thesis by simp
      qed
    qed
  qed
qed

lemma files_collect_rows: "collect_rows hs trs rs w = (rs', w1) \<Longrightarrow> files w1 = files w"
  by (induction hs trs rs w rule: collect_rows.induct) (auto split: if_splits)

lemma files_parse_table: "parse_table e html o_name m_name w = (r, w1) \<Longrightarrow> files w1 = files w"
  by (auto simp: parse_table_def split: prod.splits sum.splits option.splits
        dest: files_collect_rows)

lemma files_scrape_table: "scrape_table e pg o_name m_name t w = (r, w1) \<Longrightarrow> files w1 = files w"
  by (auto simp: scrape_table_def split: prod.splits sum.splits option.splits
        dest!: files_parse_table files_wait_loaded)

lemma files_activate_tab: "activate_tab e p ls w = (r, w1) \<Longrightarrow> files w1 = files w"
  by (induction ls arbitrary: w) (auto split: prod.splits sum.splits dest!: files_do_act)

lemma sheet_of_cong: "files w1 = files w \<Longrightarrow> sheet_of w1 p s = sheet_of w p s"
  by (simp add: sheet_of_def)

lemma excel_write_frame2:
  assumes "excel_write e path md s df w = (r, w1)" "s' \<noteq> s" and "md = ModeW \<longrightarrow> files w path = None"
  shows "sheet_of w1 p s' = sheet_of w p s'"
  using excel_write_frame [OF assms(2,3), of e df p] assms(1) by simp

lemma append_to_excel_frame:
  assumes "s' \<noteq> s"
  shows "sheet_of (append_to_excel e df path s w) p s' = sheet_of w p s'"
proof (cases "files w path = None")
  case True
  obtain r w2 where x: "excel_write e path ModeW s df w = (r, w2)"
    by (cases "excel_write e path ModeW s df w")
  have "sheet_of w2 p s' = sheet_of w p s'"
    using x assms True by (rule excel_write_frame2 [OF _ _ impI])
  with True x show ?thesis
    by (cases r) (simp_all add: append_to_excel_def)
next
  case False
  then obtain wb where wb: "files w path = Some wb" by auto
  obtain r1 w2 where rd: "read_excel e path s w = (r1, w2)"
    by (cases "read_excel e path s w")
  have f2: "files w2 = files w" using rd by (rule files_read_excel)
  define ex where "ex = (case r1 of Inl x \<Rightarrow> None | Inr f \<Rightarrow> Some f)"
  define w3 where "w3 = (case r1 of Inl x \<Rightarrow> log Warning (SheetMissing s) w2 | Inr f \<Rightarrow> w2)"
  have f3: "files w3 = files w"
    unfolding w3_def using f2 by (cases r1) simp_all
  have step: "(case read_excel e path s w of
                 (Inl x, w1) \<Rightarrow> (None, log Warning (SheetMissing s) w1)
               | (Inr f, w1) \<Rightarrow> (Some f, w1)) = (ex, w3)"
    using rd by (cases r1) (simp_all add: ex_def w3_def)
  show ?thesis
  proof (cases "case ex of None \<Rightarrow> Inr df | Some ex' \<Rightarrow> pd_concat ex' df")
    case (Inl x)
    with wb step f3 show ?thesis
      by (simp add: append_to_excel_def sheet_of_def)
  next
    case (Inr df')
    obtain r w4 where x: "excel_write e path ModeA s df' w3 = (r, w4)"
      by (cases "excel_write e path ModeA s df' w3")
    have "sheet_of w4 p s' = sheet_of w3 p s'"
      using x assms by (rule excel_write_frame2) simp
    also have "\<dots> = sheet_of w p s'" using f3 by (rule sheet_of_cong)
    finally have "sheet_of w4 p s' = sheet_of w p s'" .
    with wb step Inr x show ?thesis
      by (cases r) (simp_all add: append_to_excel_def)
  qed
qed

lemma main_table_step_frame:
  assumes "s' \<noteq> main_sheet"
  shows "sheet_of (main_table_step e pp c m w) p s' = sheet_of w p s'"
proof -
  obtain r w2 where st: "scrape_table e pp c m main_table_title w = (r, w2)"
    by (cases "scrape_table e pp c m main_table_title w")
  have "sheet_of w2 p s' = sheet_of w p s'"
    using st by (intro sheet_of_cong files_scrape_table)
  with st assms show ?thesis
    by (cases r) (simp_all add: main_table_step_def append_to_excel_frame)
qed

lemma historical_step_frame:
  assumes "s' \<noteq> historical_sheet"
  shows "sheet_of (historical_step e pp c m w) p s' = sheet_of w p s'"
proof -
  obtain r1 w2 where a:
    "activate_tab e pp [tab_label_1, tab_label_2] (log Info AttemptHistorical w) = (r1, w2)"
    by (cases "activate_tab e pp [tab_label_1, tab_label_2] (log Info AttemptHistorical w)")
  have f2: "files w2 = files w"
    using files_activate_tab [OF a] by simp
  show ?thesis
  proof (cases r1)
    case None
    with a f2 show ?thesis
      by (simp add: historical_step_def sheet_of_def)
  next
    case (Some tab_text)
    obtain r2 w3 where st: "scrape_table e pp c m tab_text w2 = (r2, w3)"
      by (cases "scrape_table e pp c m tab_text w2")
    have "files w3 = files w" using files_scrape_table [OF st] f2 by simp
    then have "sheet_of w3 p s' = sheet_of w p s'" by (rule sheet_of_cong)
    with Some a st assms show ?thesis
      by (cases r2) (simp_all add: historical_step_def append_to_excel_frame)
  qed
qed

section \<open>Merging into the workbook\<close>

text \<open>
  C8. A merge into one sheet leaves every other sheet as it was, in the workbook written and
  in every other file, whatever the file system answers: a first write makes a workbook
  that had no other sheet, a later one replaces the target sheet alone.
\<close>

theorem sheet_isolation:
  "s' \<noteq> s \<Longrightarrow> sheet_of (append_to_excel e df path s w) p s' = sheet_of w p s'"
  by (rule append_to_excel_frame)

theorem sheet_isolation_witness:
  "main_sheet \<noteq> historical_sheet \<and>
   sheet_of (append_to_excel env_ok frame_b output_file historical_sheet world_a) output_file main_sheet
     = Some frame_a"
proof -
  have ne: "main_sheet \<noteq> historical_sheet"
    by (simp add: main_sheet_def historical_sheet_def)
  have "sheet_of world_a output_file main_sheet = Some frame_a"
    by (simp add: sheet_of_def world_a_def)
  with ne sheet_isolation [OF ne, of env_ok frame_b output_file world_a output_file]
  show ?thesis by simp
qed

section \<open>The table snapshot\<close>

lemma collect_rows_eq:
  "collect_rows hs trs rs w =
     (rs @ filter (\<lambda>cols. length cols = length hs) trs,
      w\<lparr>trace := trace w @
            map (\<lambda>cols. Log Warning (IncompleteRow cols))
              (filter (\<lambda>cols. length cols \<noteq> length hs) trs)\<rparr>)"
  by (induction trs arbitrary: rs w) (simp_all add: log_def)

lemma longest_row_uniform:
  "rs \<noteq> [] \<Longrightarrow> list_all (\<lambda>r. length r = n) rs \<Longrightarrow> foldr max (map length rs) 0 = n"
proof (induction rs)
  case Nil
  then show ?case by simp
next
  case (Cons r rs)
  then show ?case by (cases "rs = []") simp_all
qed

lemma DataFrame_filtered:
  "DataFrame (filter (\<lambda>cols. length cols = length hs) trs) hs =
     Inr \<lparr>columns = hs, rows = map (map Some) (filter (\<lambda>cols. length cols = length hs) trs)\<rparr>"
proof (cases "filter (\<lambda>cols. length cols = length hs) trs = []")
  case True
  then show ?thesis by (simp add: DataFrame_def)
next
  case False
  have "foldr max (map length (filter (\<lambda>cols. length cols = length hs) trs)) 0 = length hs"
    using False by (rule longest_row_uniform) (simp add: list_all_iff)
  then show ?thesis by (simp add: DataFrame_def)
qed

lemma parse_table_Some:
  assumes "parse_table e html o_name m_name w = (Inr df, w1)"
  shows "\<exists>headers body.
           thead (soup e html) = Some headers \<and> tbody (soup e html) = Some body \<and>
           columns df = original_column # matched_column # headers \<and>
           rows df = map (\<lambda>cols. Some o_name # Some m_name # map Some cols)
                       (filter (\<lambda>cols. length cols = length headers) body) \<and>
           trace w1 = trace w @ map (\<lambda>cols. Log Warning (IncompleteRow cols))
                       (filter (\<lambda>cols. length cols \<noteq> length headers) body)"
proof (cases "thead (soup e html)")
  case None
  with assms show ?thesis by (simp add: parse_table_def)
next
  case hs: (Some headers)
  show ?thesis
  proof (cases "tbody (soup e html)")
    case None
    with hs assms show ?thesis by (simp add: parse_table_def)
  next
    case (Some body)
    from assms hs Some show ?thesis
      by (auto simp: parse_table_def collect_rows_eq DataFrame_filtered df_insert_def
            split: if_splits)
  qed
qed

lemma wait_loaded_Some:
  "wait_loaded e l n w = (Inr (Some html), w1) \<Longrightarrow>
     \<not> sublist loading_marker html \<and> (\<exists>evs. trace w1 = trace w @ evs @ [InnerHtml l (Inr html)])"
proof (induction e l n w rule: wait_loaded.induct)
  case (1 e l n w)
  show ?case
  proof (cases "n < max_retries")
    case False
    with "1.prems" show ?thesis by (simp add: wait_loaded.simps)
  next
    case True
    let ?r = "inner_html e (trace w) l"
    let ?w1 = "w\<lparr>trace := trace w @ [InnerHtml l ?r]\<rparr>"
    have g: "get_inner_html e l w = (?r, ?w1)"
      by (simp add: get_inner_html_def Let_def)
    show ?thesis
    proof (cases ?r)
      case (Inl x)
      with True g "1.prems" show ?thesis by (simp add: wait_loaded.simps)
    next
      case (Inr h)
      show ?thesis
      proof (cases "sublist loading_marker h")
        case False
        with Inr True g "1.prems" show ?thesis
          by (auto simp: wait_loaded.simps)
      next
        case marker: True
        let ?w2 = "sleep 2 (log Info (StillLoading (n + 1)) ?w1)"
        have "wait_loaded e l (n + 1) ?w2 = (Inr (Some html), w1)"
          using "1.prems" True g Inr marker by (simp add: wait_loaded.simps)
        then have "\<not> sublist loading_marker html \<and>
                   (\<exists>evs. trace w1 = trace ?w2 @ evs @ [InnerHtml l (Inr html)])"
          using "1.IH" [OF True g [symmetric] Inr] marker by blast
        then show ?thesis by (auto simp: sleep_def)
      qed
    qed
  qed
qed

text \<open>
  C3. When \<open>scrape_table\<close> returns a frame, it was built from the markup of the last poll,
  which is free of the loading marker: its rows are the body rows whose cell count equals
  the header count, in their order, each behind the two identifier cells, so every row has
  the header count plus two cells; every other body row was dropped, with one warning each
  and in their order, after the markup was read.
\<close>

theorem row_shape:
  assumes "scrape_table e pg o_name m_name t w = (Some df, w')"
  shows "\<exists>html headers body evs.
           \<not> sublist loading_marker html \<and>
           thead (soup e html) = Some headers \<and> tbody (soup e html) = Some body \<and>
           columns df = original_column # matched_column # headers \<and>
           rows df = map (\<lambda>cols. Some o_name # Some m_name # map Some cols)
                       (filter (\<lambda>cols. length cols = length headers) body) \<and>
           list_all (\<lambda>r. length r = length headers + 2) (rows df) \<and>
           trace w' = trace w @ evs @
             [InnerHtml (Locator pg table_selector) (Inr html), Log Debug (TableHtml t)] @
             map (\<lambda>cols. Log Warning (IncompleteRow cols))
               (filter (\<lambda>cols. length cols \<noteq> length headers) body)"
proof -
  let ?w0 = "log Info (ScrapingTable t o_name) w"
  obtain r1 w1 where wl: "wait_loaded e (Locator pg table_selector) 0 ?w0 = (r1, w1)"
    by (cases "wait_loaded e (Locator pg table_selector) 0 ?w0")
  from assms wl obtain html where r1: "r1 = Inr (Some html)"
    by (auto simp: scrape_table_def split: sum.splits option.splits)
  from wl r1 have nm: "\<not> sublist loading_marker html"
    and "\<exists>evs. trace w1 = trace ?w0 @ evs @ [InnerHtml (Locator pg table_selector) (Inr html)]"
    using wait_loaded_Some [of e "Locator pg table_selector" 0 ?w0 html w1] by simp_all
  then obtain evs where
    t1: "trace w1 = trace ?w0 @ evs @ [InnerHtml (Locator pg table_selector) (Inr html)]"
    by blast
  let ?w2 = "log Debug (TableHtml t) w1"
  obtain r2 w3 where pt: "parse_table e html o_name m_name ?w2 = (r2, w3)"
    by (cases "parse_table e html o_name m_name ?w2")
  from assms wl r1 pt have r2: "r2 = Inr df" and w3: "w3 = w'"
    by (auto simp: scrape_table_def split: sum.splits)
  from parse_table_Some [OF pt [unfolded r2 w3]] obtain headers body where
    p: "thead (soup e html) = Some headers" "tbody (soup e html) = Some body"
       "columns df = original_column # matched_column # headers"
       "rows df = map (\<lambda>cols. Some o_name # Some m_name # map Some cols)
                       (filter (\<lambda>cols. length cols = length headers) body)"
       "trace w' = trace ?w2 @ map (\<lambda>cols. Log Warning (IncompleteRow cols))
                       (filter (\<lambda>cols. length cols \<noteq> length headers) body)"
    by blast
  have shape: "list_all (\<lambda>r. length r = length headers + 2) (rows df)"
    by (simp add: p(4) list_all_iff)
  have tr: "trace w' = trace w @ (Log Info (ScrapingTable t o_name) # evs) @
             [InnerHtml (Locator pg table_selector) (Inr html), Log Debug (TableHtml t)] @
             map (\<lambda>cols. Log Warning (IncompleteRow cols))
               (filter (\<lambda>cols. length cols \<noteq> length headers) body)"
    by (simp add: p(5) t1)
  from nm p(1-4) shape tr show ?thesis by blast
qed

lemma wait_loaded_end: "wait_loaded e l max_retries w = (Inr None, w)"
  by (simp add: wait_loaded.simps)

lemma wait_loaded_again:
  assumes "n < max_retries" and "inner_html e (trace w) l = Inr html"
    and "sublist loading_marker html"
  shows "wait_loaded e l n w =
           wait_loaded e l (Suc n)
             (w\<lparr>trace := trace w @ [InnerHtml l (Inr html), Log Info (StillLoading (Suc n)), Sleep 2]\<rparr>)"
  using assms
  by (subst wait_loaded.simps) (simp add: get_inner_html_def Let_def log_def sleep_def)

text \<open>
  C4. When every poll of the table returns markup that contains the loading marker,
  \<open>scrape_table\<close> returns \<open>None\<close> after exactly five polls, each followed by a pause of two
  seconds, and logs that the table did not load.
\<close>

theorem loading_gives_up:
  assumes "\<forall>h. \<exists>html. inner_html e h (Locator pg table_selector) = Inr html \<and>
                      sublist loading_marker html"
  shows "\<exists>h1 h2 h3 h4 h5.
           scrape_table e pg o_name m_name t w =
             (None,
              w\<lparr>trace := trace w @
                 [Log Info (ScrapingTable t o_name),
                  InnerHtml (Locator pg table_selector) (Inr h1), Log Info (StillLoading 1), Sleep 2,
                  InnerHtml (Locator pg table_selector) (Inr h2), Log Info (StillLoading 2), Sleep 2,
                  InnerHtml (Locator pg table_selector) (Inr h3), Log Info (StillLoading 3), Sleep 2,
                  InnerHtml (Locator pg table_selector) (Inr h4), Log Info (StillLoading 4), Sleep 2,
                  InnerHtml (Locator pg table_selector) (Inr h5), Log Info (StillLoading 5), Sleep 2,
                  Log Error (NotLoaded t o_name)]\<rparr>)"
proof -
  let ?l = "Locator pg table_selector"
  have poll: "\<And>n (w0::world). n < max_retries \<Longrightarrow>
      \<exists>html. wait_loaded e ?l n w0 =
        wait_loaded e ?l (Suc n)
          (w0\<lparr>trace := trace w0 @ [InnerHtml ?l (Inr html), Log Info (StillLoading (Suc n)), Sleep 2]\<rparr>)"
  proof -
    fix n and w0 :: world
    assume n: "n < max_retries"
    from assms obtain html where "inner_html e (trace w0) ?l = Inr html"
      and "sublist loading_marker html" by blast
    with n show "?thesis n w0" by (blast intro: wait_loaded_again)
  qed
  let ?w0 = "log Info (ScrapingTable t o_name) w"
  from poll [of 0 ?w0] obtain h1 where
    s1: "wait_loaded e ?l 0 ?w0 = wait_loaded e ?l 1
           (?w0\<lparr>trace := trace ?w0 @ [InnerHtml ?l (Inr h1), Log Info (StillLoading 1), Sleep 2]\<rparr>)"
    (is "_ = wait_loaded e ?l 1 ?w1")
    by (auto simp: max_retries_def)
  from poll [of 1 ?w1] obtain h2 where
    s2: "wait_loaded e ?l 1 ?w1 = wait_loaded e ?l 2
           (?w1\<lparr>trace := trace ?w1 @ [InnerHtml ?l (Inr h2), Log Info (StillLoading 2), Sleep 2]\<rparr>)"
    (is "_ = wait_loaded e ?l 2 ?w2")
    by (auto simp: max_retries_def numeral_2_eq_2)
  from poll [of 2 ?w2] obtain h3 where
    s3: "wait_loaded e ?l 2 ?w2 = wait_loaded e ?l 3
           (?w2\<lparr>trace := trace ?w2 @ [InnerHtml ?l (Inr h3), Log Info (StillLoading 3), Sleep 2]\<rparr>)"
    (is "_ = wait_loaded e ?l 3 ?w3")
    by (auto simp: max_retries_def numeral_3_eq_3 numeral_2_eq_2)
  from poll [of 3 ?w3] obtain h4 where
    s4: "wait_loaded e ?l 3 ?w3 = wait_loaded e ?l 4
           (?w3\<lparr>trace := trace ?w3 @ [InnerHtml ?l (Inr h4), Log Info (StillLoading 4), Sleep 2]\<rparr>)"
    (is "_ = wait_loaded e ?l 4 ?w4")
    by (auto simp: max_retries_def eval_nat_numeral)
  from poll [of 4 ?w4] obtain h5 where
    s5: "wait_loaded e ?l 4 ?w4 = wait_loaded e ?l 5
           (?w4\<lparr>trace := trace ?w4 @ [InnerHtml ?l (Inr h5), Log Info (StillLoading 5), Sleep 2]\<rparr>)"
    (is "_ = wait_loaded e ?l 5 ?w5")
    by (auto simp: max_retries_def eval_nat_numeral)
  have "wait_loaded e ?l 5 ?w5 = (Inr None, ?w5)"
    using wait_loaded_end [of e ?l ?w5] by (simp add: max_retries_def)
  with s1 s2 s3 s4 s5 have "wait_loaded e ?l 0 ?w0 = (Inr None, ?w5)" by simp
  then have "scrape_table e pg o_name m_name t w = (None, log Error (NotLoaded t o_name) ?w5)"
    by (simp add: scrape_table_def)
  then show ?thesis by (simp add: log_def) blast
qed


lemma wait_loaded_first:
  assumes "n < max_retries" and "inner_html e (trace w) l = Inr html"
    and "\<not> sublist loading_marker html"
  shows "wait_loaded e l n w = (Inr (Some html), w\<lparr>trace := trace w @ [InnerHtml l (Inr html)]\<rparr>)"
  using assms
  by (subst wait_loaded.simps) (simp add: get_inner_html_def Let_def)

lemma example_html_loaded: "\<not> sublist loading_marker example_html"
  by (simp add: loading_marker_def example_html_def sublist_code)

lemma loading_html_marker: "sublist loading_marker loading_html"
  unfolding loading_html_def by (rule sublist_appendI)

theorem row_shape_witness:
  "fst (scrape_table env_ok (Page 1) ''Acme'' ''Acme Ltd'' main_table_title world_empty)
     = Some \<lparr>columns = [original_column, matched_column, ''Name'', ''Share''],
             rows = [[Some ''Acme'', Some ''Acme Ltd'', Some ''Li'', Some ''60%''],
                     [Some ''Acme'', Some ''Acme Ltd'', Some ''Zhao'', Some ''40%'']]\<rparr>"
proof -
  let ?w0 = "log Info (ScrapingTable main_table_title ''Acme'') world_empty"
  have "wait_loaded env_ok (Locator (Page 1) table_selector) 0 ?w0 =
          (Inr (Some example_html),
           ?w0\<lparr>trace := trace ?w0 @ [InnerHtml (Locator (Page 1) table_selector) (Inr example_html)]\<rparr>)"
    by (rule wait_loaded_first)
       (simp_all add: max_retries_def env_ok_def example_html_loaded)
  then obtain df w' where
    st: "scrape_table env_ok (Page 1) ''Acme'' ''Acme Ltd'' main_table_title world_empty = (Some df, w')"
    by (simp add: scrape_table_def parse_table_def env_ok_def example_parsed_def
          DataFrame_def df_insert_def original_column_def matched_column_def)
  from row_shape [OF st] obtain html headers body where
    "thead (soup env_ok html) = Some headers" "tbody (soup env_ok html) = Some body"
    "columns df = original_column # matched_column # headers"
    "rows df = map (\<lambda>cols. Some ''Acme'' # Some ''Acme Ltd'' # map Some cols)
                 (filter (\<lambda>cols. length cols = length headers) body)"
    by blast
  then have "df = \<lparr>columns = [original_column, matched_column, ''Name'', ''Share''],
             rows = [[Some ''Acme'', Some ''Acme Ltd'', Some ''Li'', Some ''60%''],
                     [Some ''Acme'', Some ''Acme Ltd'', Some ''Zhao'', Some ''40%'']]\<rparr>"
    by (cases df) (auto simp: env_ok_def example_parsed_def)
  with st show ?thesis by simp
qed

theorem loading_gives_up_witness:
  "(\<forall>h. \<exists>html. inner_html env_loading h (Locator (Page 1) table_selector) = Inr html \<and>
                 sublist loading_marker html) \<and>
   fst (scrape_table env_loading (Page 1) ''Acme'' ''Acme Ltd'' main_table_title world_empty) = None \<and>
   length (trace (snd (scrape_table env_loading (Page 1) ''Acme'' ''Acme Ltd'' main_table_title
                         world_empty))) = 17"
proof -
  have h: "\<forall>h. \<exists>html. inner_html env_loading h (Locator (Page 1) table_selector) = Inr html \<and>
                 sublist loading_marker html"
    by (simp add: env_loading_def loading_html_marker)
  from loading_gives_up [OF h, of "''Acme''" "''Acme Ltd''" main_table_title world_empty]
  show ?thesis using h by (auto simp: world_empty_def)
qed

section \<open>The orchestrator and the batch loop\<close>

lemma inner_body_event: "inner_event ev \<Longrightarrow> body_event ev"
  by (auto simp: inner_event_def body_event_def split: event.splits msg.splits action.splits)

lemma search_company_shape:
  assumes "search_company e pg c w = (r, w1)"
  shows "\<exists>evs. trace w1 = trace w @ evs \<and> list_all body_event evs \<and>
           (\<forall>l x. TextContent l (Inl x) \<in> set evs \<longrightarrow> r = Inl x) \<and>
           (\<forall>l p. ExpectPopup l (Inr p) \<in> set evs \<longrightarrow> (\<exists>t. r = Inr (Some (t, p)))) \<and>
           r \<noteq> Inr None"
  using assms
  by (auto simp: search_company_def do_act_def get_text_content_def click_expect_popup_def
        Let_def sleep_def log_def locator_truthy_def body_event_def
        split: option.splits sum.splits)


lemma inner_no_text_content: "list_all inner_event evs \<Longrightarrow> TextContent l r \<notin> set evs"
  by (auto simp: list_all_iff inner_event_def)

lemma inner_no_expect_popup: "list_all inner_event evs \<Longrightarrow> ExpectPopup l r \<notin> set evs"
  by (auto simp: list_all_iff inner_event_def)

lemma company_body_shape:
  assumes "company_body e pg c w = (pp, r, w2)"
  shows "\<exists>evs. trace w2 = trace w @ Log Info (StartScrape c) # evs \<and> list_all body_event evs \<and>
           (\<forall>l x. TextContent l (Inl x) \<in> set evs \<longrightarrow> r = Inl x) \<and>
           (\<forall>l p. ExpectPopup l (Inr p) \<in> set evs \<longrightarrow> pp = Some p)"
proof -
  let ?w0 = "log Info (StartScrape c) w"
  obtain r1 w1 where sc: "search_company e pg c ?w0 = (r1, w1)"
    by (cases "search_company e pg c ?w0")
  from search_company_shape [OF sc] obtain evs1 where
    t1: "trace w1 = trace ?w0 @ evs1" and b1: "list_all body_event evs1"
    and tc1: "\<forall>l x. TextContent l (Inl x) \<in> set evs1 \<longrightarrow> r1 = Inl x"
    and ep1: "\<forall>l p. ExpectPopup l (Inr p) \<in> set evs1 \<longrightarrow> (\<exists>t. r1 = Inr (Some (t, p)))"
    and nn: "r1 \<noteq> Inr None"
    by blast
  show ?thesis
  proof (cases r1)
    case (Inl x)
    with assms sc have "pp = None" "r = Inl x" "w2 = w1"
      by (simp_all add: company_body_def)
    with t1 b1 tc1 ep1 Inl show ?thesis by auto
  next
    case (Inr found)
    with nn obtain t p where found: "found = Some (t, p)" by (cases found) auto
    obtain r2 w3 where sp: "scrape_popup e p c t w1 = (r2, w3)"
      by (cases "scrape_popup e p c t w1")
    from inner_scrape_popup [OF inner_refl sp] obtain evs2 where
      t3: "trace w3 = trace w1 @ evs2" and i2: "list_all inner_event evs2"
      by (auto simp: inner_def)
    from assms sc Inr found sp have res: "pp = Some p" "r = r2" "w2 = w3"
      by (simp_all add: company_body_def)
    have b2: "list_all body_event evs2"
      using i2 by (auto simp: list_all_iff inner_body_event)
    have "trace w2 = trace w @ Log Info (StartScrape c) # (evs1 @ evs2)"
      using t1 t3 res by simp
    moreover have "list_all body_event (evs1 @ evs2)" using b1 b2 by simp
    moreover have "\<forall>l x. TextContent l (Inl x) \<in> set (evs1 @ evs2) \<longrightarrow> r = Inl x"
      using tc1 Inr inner_no_text_content [OF i2] by auto
    moreover have "\<forall>l p'. ExpectPopup l (Inr p') \<in> set (evs1 @ evs2) \<longrightarrow> pp = Some p'"
      using ep1 Inr found res inner_no_expect_popup [OF i2] by auto
    ultimately show ?thesis by blast
  qed
qed

text \<open>The handler and the finally block, after the body.\<close>

lemma sct_after_body:
  assumes "company_body e pg c w = (pp, r, w2)"
    and "hnd = (case r of Inl x \<Rightarrow> [Log Error (CompanyError c x)] | Inr u \<Rightarrow> [])"
    and "cl = (case pp of None \<Rightarrow> []
               | Some p \<Rightarrow> [Act (Close p) (act e (trace w2 @ hnd) (Close p))])"
    and "g = act e (trace w2 @ hnd @ cl) (Goto pg landing_url)"
  shows "trace (snd (scrape_company_tables e pg c w)) =
           trace w2 @ hnd @ cl @ [Act (Goto pg landing_url) g]"
    and "fst (scrape_company_tables e pg c w) = (case g of None \<Rightarrow> Inr () | Some x \<Rightarrow> Inl x)"
  using assms
  by (cases r; cases pp; simp add: scrape_company_tables_def do_act_def Let_def log_def)+

lemma started_append [simp]: "started (xs @ ys) = started xs @ started ys"
  by (simp add: started_def map_filter_def)

lemma started_Cons_start [simp]: "started (Log lvl (StartScrape c) # evs) = c # started evs"
  by (simp add: started_def map_filter_def start_of_def)

lemma started_Nil [simp]: "started [] = []"
  by (simp add: started_def map_filter_def)

lemma started_body: "list_all body_event evs \<Longrightarrow> started evs = []"
  by (induction evs)
     (auto simp: started_def map_filter_def start_of_def body_event_def
        split: event.splits msg.splits)

lemma started_Act [simp]: "started (Act a r # evs) = started evs"
  by (simp add: started_def map_filter_def start_of_def)

lemma started_CompanyError [simp]: "started (Log lvl (CompanyError c x) # evs) = started evs"
  by (simp add: started_def map_filter_def start_of_def)

lemma sct_started:
  "started (trace (snd (scrape_company_tables e pg c w))) = started (trace w) @ [c]"
proof -
  obtain pp r w2 where cb: "company_body e pg c w = (pp, r, w2)"
    by (cases "company_body e pg c w") auto
  from company_body_shape [OF cb] obtain evs where
    t2: "trace w2 = trace w @ Log Info (StartScrape c) # evs" and b: "list_all body_event evs"
    by blast
  define hnd where "hnd = (case r of Inl x \<Rightarrow> [Log Error (CompanyError c x)] | Inr u \<Rightarrow> [])"
  define cl where "cl = (case pp of None \<Rightarrow> []
               | Some p \<Rightarrow> [Act (Close p) (act e (trace w2 @ hnd) (Close p))])"
  define g where "g = act e (trace w2 @ hnd @ cl) (Goto pg landing_url)"
  note t = sct_after_body(1) [OF cb hnd_def cl_def g_def]
  have h: "started hnd = []" unfolding hnd_def by (cases r) simp_all
  have c: "started cl = []" unfolding cl_def by (cases pp) simp_all
  have e: "started evs = []" using b by (rule started_body)
  show ?thesis unfolding t t2 by (simp add: h c e)
qed

lemma sct_result:
  "\<exists>h. fst (scrape_company_tables e pg c w) =
         (case act e h (Goto pg landing_url) of None \<Rightarrow> Inr () | Some x \<Rightarrow> Inl x)"
proof -
  obtain pp r w2 where cb: "company_body e pg c w = (pp, r, w2)"
    by (cases "company_body e pg c w") auto
  define hnd where "hnd = (case r of Inl x \<Rightarrow> [Log Error (CompanyError c x)] | Inr u \<Rightarrow> [])"
  define cl where "cl = (case pp of None \<Rightarrow> []
               | Some p \<Rightarrow> [Act (Close p) (act e (trace w2 @ hnd) (Close p))])"
  show ?thesis
    using sct_after_body(2) [OF cb hnd_def cl_def refl] by (rule exI)
qed

lemma for_companies_abort:
  assumes "\<forall>h. act e h (Goto pg landing_url) = Some x"
  shows "fst (for_companies e pg (c # cs) w) = Inl x \<and>
         started (trace (snd (for_companies e pg (c # cs) w))) = started (trace w) @ [c]"
proof -
  obtain r w1 where sct: "scrape_company_tables e pg c w = (r, w1)"
    by (cases "scrape_company_tables e pg c w")
  from sct_result [of e pg c w] obtain h where
    "fst (scrape_company_tables e pg c w) =
       (case act e h (Goto pg landing_url) of None \<Rightarrow> Inr () | Some x \<Rightarrow> Inl x)" ..
  with assms sct have "r = Inl x" by simp
  with sct sct_started [of e pg c w] show ?thesis by simp
qed

lemma run_abort:
  assumes "\<forall>h. act e h (Goto pg landing_url) = Some x"
  shows "Log Critical (UnexpectedError x) \<in> set (trace (run e pg (c # cs) w)) \<and>
         started (trace (run e pg (c # cs) w)) = started (trace w) @ [c]"
proof -
  obtain r w1 where fc: "for_companies e pg (c # cs) w = (r, w1)"
    by (cases "for_companies e pg (c # cs) w")
  from for_companies_abort [OF assms, of c cs w] fc
  have r: "r = Inl x" and st: "started (trace w1) = started (trace w) @ [c]"
    by simp_all
  have "trace (run e pg (c # cs) w) =
          trace w1 @ [Log Critical (UnexpectedError x),
                      Act BrowserClose (act e (trace w1 @ [Log Critical (UnexpectedError x)])
                                          BrowserClose)]"
    using fc r by (simp add: run_def do_act_def Let_def)
  then show ?thesis
    using st by (simp add: started_def map_filter_def start_of_def)
qed

lemma for_companies_all:
  assumes "\<forall>h. act e h (Goto pg landing_url) = None"
  shows "fst (for_companies e pg cs w) = Inr () \<and>
         started (trace (snd (for_companies e pg cs w))) = started (trace w) @ cs"
proof (induction cs arbitrary: w)
  case Nil
  show ?case by simp
next
  case (Cons c cs)
  obtain r w1 where sct: "scrape_company_tables e pg c w = (r, w1)"
    by (cases "scrape_company_tables e pg c w")
  from sct_result [of e pg c w] obtain h where
    "fst (scrape_company_tables e pg c w) =
       (case act e h (Goto pg landing_url) of None \<Rightarrow> Inr () | Some x \<Rightarrow> Inl x)" ..
  with assms sct have "r = Inr ()" by simp
  with sct sct_started [of e pg c w] Cons.IH [of w1] show ?case by simp
qed

lemma sct_records:
  assumes "fst (snd (company_body e pg c w)) = Inl x"
  shows "Log Error (CompanyError c x) \<in> set (trace (snd (scrape_company_tables e pg c w)))"
proof -
  obtain pp r w2 where cb: "company_body e pg c w = (pp, r, w2)"
    by (cases "company_body e pg c w") auto
  define hnd where "hnd = (case r of Inl x \<Rightarrow> [Log Error (CompanyError c x)] | Inr u \<Rightarrow> [])"
  define cl where "cl = (case pp of None \<Rightarrow> []
               | Some p \<Rightarrow> [Act (Close p) (act e (trace w2 @ hnd) (Close p))])"
  note t = sct_after_body(1) [OF cb hnd_def cl_def refl]
  from cb assms have "hnd = [Log Error (CompanyError c x)]" by (simp add: hnd_def)
  then show ?thesis unfolding t by simp
qed

text \<open>
  C5. Every call of \<open>scrape_company_tables\<close>, whatever the site answers and whatever the
  body raised, ends with the navigation of the primary page back to the landing page; and
  when a popup was opened in this call, the event just before it is the closing of that
  popup, whatever the closing answered.
\<close>

theorem cleanup_always:
  "\<exists>evs g.
     trace (snd (scrape_company_tables e pg c w)) = trace w @ evs @ [Act (Goto pg landing_url) g] \<and>
     (\<forall>l p. ExpectPopup l (Inr p) \<in> set evs \<longrightarrow> (\<exists>evs' r'. evs = evs' @ [Act (Close p) r']))"
proof -
  obtain pp r w2 where cb: "company_body e pg c w = (pp, r, w2)"
    by (cases "company_body e pg c w") auto
  from company_body_shape [OF cb] obtain evs where
    t2: "trace w2 = trace w @ Log Info (StartScrape c) # evs"
    and ep: "\<forall>l p. ExpectPopup l (Inr p) \<in> set evs \<longrightarrow> pp = Some p"
    by blast
  define hnd where "hnd = (case r of Inl x \<Rightarrow> [Log Error (CompanyError c x)] | Inr u \<Rightarrow> [])"
  define cl where "cl = (case pp of None \<Rightarrow> []
               | Some p \<Rightarrow> [Act (Close p) (act e (trace w2 @ hnd) (Close p))])"
  define g where "g = act e (trace w2 @ hnd @ cl) (Goto pg landing_url)"
  note t = sct_after_body(1) [OF cb hnd_def cl_def g_def]
  let ?evs = "Log Info (StartScrape c) # evs @ hnd @ cl"
  have "trace (snd (scrape_company_tables e pg c w)) = trace w @ ?evs @ [Act (Goto pg landing_url) g]"
    unfolding t t2 by simp
  moreover have "\<forall>l p. ExpectPopup l (Inr p) \<in> set ?evs \<longrightarrow>
                   (\<exists>evs' r'. ?evs = evs' @ [Act (Close p) r'])"
  proof (intro allI impI)
    fix l p
    assume "ExpectPopup l (Inr p) \<in> set ?evs"
    then have "ExpectPopup l (Inr p) \<in> set evs"
      unfolding hnd_def cl_def by (cases r; cases pp) auto
    with ep have "pp = Some p" by blast
    then have "?evs = (Log Info (StartScrape c) # evs @ hnd) @
                      [Act (Close p) (act e (trace w2 @ hnd) (Close p))]"
      by (simp add: cl_def)
    then show "\<exists>evs' r'. ?evs = evs' @ [Act (Close p) r']" by blast
  qed
  ultimately show ?thesis by blast
qed

text \<open>
  C9. \<open>scrape_company_tables\<close> raises \<open>x\<close> exactly when its last event, the navigation back
  to the landing page, raised \<open>x\<close>: nothing else escapes. And a site whose navigation fails
  ends the batch loop within the first company: the result of the loop is that exception,
  \<open>run\<close> logs it as critical, and no later company is started.
\<close>

theorem only_navigation_escapes:
  "((fst (scrape_company_tables e pg c w) = Inl x) =
      (\<exists>evs. trace (snd (scrape_company_tables e pg c w)) =
                evs @ [Act (Goto pg landing_url) (Some x)])) \<and>
   ((\<forall>h. act e' h (Goto pg' landing_url) = Some x') \<longrightarrow>
      fst (for_companies e' pg' (c' # cs) w') = Inl x' \<and>
      started (trace (snd (for_companies e' pg' (c' # cs) w'))) = started (trace w') @ [c'] \<and>
      Log Critical (UnexpectedError x') \<in> set (trace (run e' pg' (c' # cs) w')) \<and>
      started (trace (run e' pg' (c' # cs) w')) = started (trace w') @ [c'])"
proof (intro conjI impI)
  obtain pp r w2 where cb: "company_body e pg c w = (pp, r, w2)"
    by (cases "company_body e pg c w") auto
  define hnd where "hnd = (case r of Inl x \<Rightarrow> [Log Error (CompanyError c x)] | Inr u \<Rightarrow> [])"
  define cl where "cl = (case pp of None \<Rightarrow> []
               | Some p \<Rightarrow> [Act (Close p) (act e (trace w2 @ hnd) (Close p))])"
  define g where "g = act e (trace w2 @ hnd @ cl) (Goto pg landing_url)"
  have t: "trace (snd (scrape_company_tables e pg c w)) =
             (trace w2 @ hnd @ cl) @ [Act (Goto pg landing_url) g]"
    using sct_after_body(1) [OF cb hnd_def cl_def g_def] by simp
  note f = sct_after_body(2) [OF cb hnd_def cl_def g_def]
  show "(fst (scrape_company_tables e pg c w) = Inl x) =
      (\<exists>evs. trace (snd (scrape_company_tables e pg c w)) =
                evs @ [Act (Goto pg landing_url) (Some x)])"
    unfolding t f by (cases g) auto
next
  assume "\<forall>h. act e' h (Goto pg' landing_url) = Some x'"
  then show "fst (for_companies e' pg' (c' # cs) w') = Inl x'"
    and "started (trace (snd (for_companies e' pg' (c' # cs) w'))) = started (trace w') @ [c']"
    and "Log Critical (UnexpectedError x') \<in> set (trace (run e' pg' (c' # cs) w'))"
    and "started (trace (run e' pg' (c' # cs) w')) = started (trace w') @ [c']"
    using for_companies_abort [of e' pg' x' c' cs w'] run_abort [of e' pg' x' c' cs w']
    by simp_all
qed

text \<open>
  C10. The search never ends in the early return of line 29, and no call of
  \<open>scrape_company_tables\<close> logs the no-results warning; when reading the text of the first
  result raises, as it does when nothing matched, the handler of line 71 logs that
  exception for the company.
\<close>

theorem no_results_branch_dead:
  "fst (search_company e pg c w0) \<noteq> Inr None \<and>
   (\<exists>evs. trace (snd (scrape_company_tables e pg c w)) = trace w @ evs \<and>
      (\<forall>lvl c'. Log lvl (NoResults c') \<notin> set evs) \<and>
      (\<forall>l x. TextContent l (Inl x) \<in> set evs \<longrightarrow> Log Error (CompanyError c x) \<in> set evs))"
proof
  show "fst (search_company e pg c w0) \<noteq> Inr None"
    using search_company_shape [of e pg c w0] by (cases "search_company e pg c w0") auto
next
  obtain pp r w2 where cb: "company_body e pg c w = (pp, r, w2)"
    by (cases "company_body e pg c w") auto
  from company_body_shape [OF cb] obtain evs where
    t2: "trace w2 = trace w @ Log Info (StartScrape c) # evs" and b: "list_all body_event evs"
    and tc: "\<forall>l x. TextContent l (Inl x) \<in> set evs \<longrightarrow> r = Inl x"
    by blast
  define hnd where "hnd = (case r of Inl x \<Rightarrow> [Log Error (CompanyError c x)] | Inr u \<Rightarrow> [])"
  define cl where "cl = (case pp of None \<Rightarrow> []
               | Some p \<Rightarrow> [Act (Close p) (act e (trace w2 @ hnd) (Close p))])"
  define g where "g = act e (trace w2 @ hnd @ cl) (Goto pg landing_url)"
  note t = sct_after_body(1) [OF cb hnd_def cl_def g_def]
  let ?evs = "Log Info (StartScrape c) # evs @ hnd @ cl @ [Act (Goto pg landing_url) g]"
  have nb: "\<And>lvl c'. Log lvl (NoResults c') \<notin> set evs"
    using b by (auto simp: list_all_iff body_event_def)
  have "\<forall>lvl c'. Log lvl (NoResults c') \<notin> set ?evs"
    using nb unfolding hnd_def cl_def by (cases r; cases pp) auto
  moreover have "\<forall>l x. TextContent l (Inl x) \<in> set ?evs \<longrightarrow> Log Error (CompanyError c x) \<in> set ?evs"
  proof (intro allI impI)
    fix l x
    assume "TextContent l (Inl x) \<in> set ?evs"
    then have "TextContent l (Inl x) \<in> set evs"
      unfolding hnd_def cl_def by (cases r; cases pp) auto
    with tc have "r = Inl x" by blast
    then show "Log Error (CompanyError c x) \<in> set ?evs" by (simp add: hnd_def)
  qed
  moreover have "trace (snd (scrape_company_tables e pg c w)) = trace w @ ?evs"
    unfolding t t2 by simp
  ultimately show "\<exists>evs. trace (snd (scrape_company_tables e pg c w)) = trace w @ evs \<and>
      (\<forall>lvl c'. Log lvl (NoResults c') \<notin> set evs) \<and>
      (\<forall>l x. TextContent l (Inl x) \<in> set evs \<longrightarrow> Log Error (CompanyError c x) \<in> set evs)"
    by blast
qed

text \<open>
  C2, amended. When the navigation back to the landing page never raises, the batch loop
  starts every company of the list, once and in the order of the list, and ends without an
  exception, whatever the other calls raise; and an exception raised in the body of one
  company is logged as that company's error.
\<close>

theorem batch_continues:
  assumes "\<forall>h. act e h (Goto pg landing_url) = None"
  shows "fst (for_companies e pg cs w) = Inr () \<and>
         started (trace (snd (for_companies e pg cs w))) = started (trace w) @ cs \<and>
         (\<forall>c w1 x. fst (snd (company_body e pg c w1)) = Inl x \<longrightarrow>
            Log Error (CompanyError c x) \<in> set (trace (snd (scrape_company_tables e pg c w1))))"
  using for_companies_all [OF assms, of cs w] sct_records [of e pg] by blast


theorem cleanup_always_witness:
  "\<exists>evs' r' g.
     trace (snd (scrape_company_tables env_popup_stuck (Page 0) ''Acme'' world_empty)) =
       evs' @ [Act (Close (Page 1)) r', Act (Goto (Page 0) landing_url) g] \<and>
     ExpectPopup (First (Locator (Page 0) company_link_selector)) (Inr (Page 1)) \<in> set evs'"
proof -
  let ?t = "trace (snd (scrape_company_tables env_popup_stuck (Page 0) ''Acme'' world_empty))"
  let ?ep = "ExpectPopup (First (Locator (Page 0) company_link_selector)) (Inr (Page 1))"
  have ev: "?t =
      [Log Info (StartScrape ''Acme''),
       Act (Fill (Nth (Locator (Page 0) search_box_selector) 0) ''Acme'') None,
       Act (Press (Nth (Locator (Page 0) search_box_selector) 0) ''Enter'') None,
       Sleep 2,
       TextContent (Sub_locator (First (Locator (Page 0) company_link_selector)) ''span em'')
         (Inr (Some ''Acme Ltd'')),
       ?ep,
       Act (WaitForLoadState (Page 1) ''domcontentloaded'') (Some timeout_error),
       Log Error (CompanyError ''Acme'' timeout_error),
       Act (Close (Page 1)) None,
       Act (Goto (Page 0) landing_url) None]"
    by (simp add: scrape_company_tables_def company_body_def search_company_def scrape_popup_def
          do_act_def get_text_content_def click_expect_popup_def Let_def sleep_def log_def
          locator_truthy_def env_popup_stuck_def env_ok_def world_empty_def)
  from cleanup_always [of env_popup_stuck "Page 0" "''Acme''" world_empty] obtain evs g where
    t: "?t = trace world_empty @ evs @ [Act (Goto (Page 0) landing_url) g]"
    and c: "\<forall>l p. ExpectPopup l (Inr p) \<in> set evs \<longrightarrow> (\<exists>evs' r'. evs = evs' @ [Act (Close p) r'])"
    by blast
  have "?ep \<in> set ?t" unfolding ev by simp
  with t have m: "?ep \<in> set evs" by (simp add: world_empty_def)
  with c obtain evs' r' where e: "evs = evs' @ [Act (Close (Page 1)) r']" by blast
  with m have "?ep \<in> set evs'" by simp
  with t e show ?thesis by (auto simp: world_empty_def)
qed

theorem only_navigation_escapes_witness:
  "(\<forall>h. act env_nav_down h (Goto (Page 0) landing_url) = Some navigation_error) \<and>
   fst (for_companies env_nav_down (Page 0) [''Acme'', ''Bolt''] world_empty) = Inl navigation_error \<and>
   started (trace (snd (for_companies env_nav_down (Page 0) [''Acme'', ''Bolt''] world_empty)))
     = [''Acme''] \<and>
   Log Critical (UnexpectedError navigation_error)
     \<in> set (trace (run env_nav_down (Page 0) [''Acme'', ''Bolt''] world_empty)) \<and>
   started (trace (run env_nav_down (Page 0) [''Acme'', ''Bolt''] world_empty)) = [''Acme'']"
proof -
  have h: "\<forall>h. act env_nav_down h (Goto (Page 0) landing_url) = Some navigation_error"
    by (simp add: env_nav_down_def)
  from only_navigation_escapes [of _ _ _ _ _ env_nav_down "Page 0" navigation_error
      "''Acme''" "[''Bolt'']" world_empty] h
  show ?thesis by (simp add: world_empty_def)
qed

theorem no_results_branch_dead_witness:
  "Log Error (CompanyError ''Acme'' timeout_error)
     \<in> set (trace (snd (scrape_company_tables env_no_match (Page 0) ''Acme'' world_empty))) \<and>
   Log Warning (NoResults ''Acme'')
     \<notin> set (trace (snd (scrape_company_tables env_no_match (Page 0) ''Acme'' world_empty)))"
proof -
  let ?t = "trace (snd (scrape_company_tables env_no_match (Page 0) ''Acme'' world_empty))"
  let ?tc = "TextContent (Sub_locator (First (Locator (Page 0) company_link_selector)) ''span em'')
               (Inl timeout_error)"
  have ev: "?tc \<in> set ?t"
    by (simp add: scrape_company_tables_def company_body_def search_company_def
          do_act_def get_text_content_def Let_def sleep_def log_def
          locator_truthy_def env_no_match_def env_ok_def world_empty_def)
  from no_results_branch_dead [of env_no_match "Page 0" "''Acme''" world_empty world_empty]
  obtain evs where t: "?t = trace world_empty @ evs"
    and n: "\<forall>lvl c'. Log lvl (NoResults c') \<notin> set evs"
    and c: "\<forall>l x. TextContent l (Inl x) \<in> set evs \<longrightarrow> Log Error (CompanyError ''Acme'' x) \<in> set evs"
    by blast
  from t have "?t = evs" by (simp add: world_empty_def)
  with ev n c show ?thesis by auto
qed

theorem batch_continues_witness:
  "(\<forall>h. act env_second_missing h (Goto (Page 0) landing_url) = None) \<and>
   fst (for_companies env_second_missing (Page 0) [''Acme'', ''Bolt'', ''Cord''] world_empty) = Inr () \<and>
   started (trace (snd (for_companies env_second_missing (Page 0) [''Acme'', ''Bolt'', ''Cord'']
                          world_empty))) = [''Acme'', ''Bolt'', ''Cord''] \<and>
   Log Error (CompanyError ''Bolt'' timeout_error)
     \<in> set (trace (snd (scrape_company_tables env_second_missing (Page 0) ''Bolt'' world_empty)))"
proof -
  have h: "\<forall>h. act env_second_missing h (Goto (Page 0) landing_url) = None"
    by (simp add: env_second_missing_def env_ok_def)
  have b: "fst (snd (company_body env_second_missing (Page 0) ''Bolt'' world_empty)) = Inl timeout_error"
    by (simp add: company_body_def search_company_def
          do_act_def get_text_content_def Let_def sleep_def log_def
          locator_truthy_def env_second_missing_def env_ok_def world_empty_def)
  from batch_continues [OF h, of "[''Acme'', ''Bolt'', ''Cord'']" world_empty] b h
  show ?thesis by (simp add: world_empty_def)
qed

text \<open>
  Without that condition the property of C2 fails: line 79 is outside every handler and the
  loop of line 191 has none, so with a navigation that raises the first company is the last.
\<close>

theorem batch_continues_counterexample:
  "fst (for_companies env_nav_down (Page 0) [''Acme'', ''Bolt'', ''Cord''] world_empty)
     = Inl navigation_error \<and>
   started (trace (snd (for_companies env_nav_down (Page 0) [''Acme'', ''Bolt'', ''Cord'']
                          world_empty))) = [''Acme'']"
proof -
  have "\<forall>h. act env_nav_down h (Goto (Page 0) landing_url) = Some navigation_error"
    by (simp add: env_nav_down_def)
  from for_companies_abort [OF this, of "''Acme''" "[''Bolt'', ''Cord'']" world_empty]
  show ?thesis by (simp add: world_empty_def)
qed

section \<open>The historical table\<close>

lemma failed_click:
  "failed_attempt p l [Act (Click (Has_text (Locator p tab_selector) l)) (Some x),
                       Log Warning (TabNotFound l)]"
  by (simp add: failed_attempt_def raised_def)

lemma failed_wait:
  "failed_attempt p l [Act (Click (Has_text (Locator p tab_selector) l)) None,
                       Act (WaitForTimeout p 3000) (Some x),
                       Log Warning (TabNotFound l)]"
  by (simp add: failed_attempt_def raised_def)

lemma activate_tab_shape:
  "(\<exists>evss. activate_tab e p ls w = (None, w\<lparr>trace := trace w @ concat evss\<rparr>) \<and>
           list_all2 (failed_attempt p) ls evss) \<or>
   (\<exists>pre l post evss.
      activate_tab e p ls w = (Some l, w\<lparr>trace := trace w @ concat evss @ activation p l\<rparr>) \<and>
      ls = pre @ l # post \<and> list_all2 (failed_attempt p) pre evss)"
proof (induction ls arbitrary: w)
  case Nil
  have "activate_tab e p [] w = (None, w\<lparr>trace := trace w @ concat []\<rparr>)" by simp
  then show ?case by (intro disjI1 exI [of _ "[]"]) simp
next
  case (Cons l ls)
  let ?click = "Click (Has_text (Locator p tab_selector) l)"
  have step: "(\<exists>fs. failed_attempt p l fs \<and>
                 activate_tab e p (l # ls) w =
                   activate_tab e p ls (w\<lparr>trace := trace w @ fs\<rparr>)) \<or>
              activate_tab e p (l # ls) w = (Some l, w\<lparr>trace := trace w @ activation p l\<rparr>)"
  proof (cases "act e (trace w) ?click")
    case (Some x)
    then have "activate_tab e p (l # ls) w =
          activate_tab e p ls (w\<lparr>trace := trace w @ [Act ?click (Some x), Log Warning (TabNotFound l)]\<rparr>)"
      by (simp add: do_act_def Let_def log_def)
    with failed_click [of p l x] show ?thesis by blast
  next
    case None
    show ?thesis
    proof (cases "act e (trace w @ [Act ?click None]) (WaitForTimeout p 3000)")
      case (Some x)
      with None have "activate_tab e p (l # ls) w =
          activate_tab e p ls
            (w\<lparr>trace := trace w @ [Act ?click None, Act (WaitForTimeout p 3000) (Some x),
                                     Log Warning (TabNotFound l)]\<rparr>)"
        by (simp add: do_act_def Let_def log_def)
      with failed_wait [of p l x] show ?thesis by blast
    next
      case ok: None
      with None have "activate_tab e p (l # ls) w = (Some l, w\<lparr>trace := trace w @ activation p l\<rparr>)"
        by (simp add: do_act_def Let_def log_def activation_def)
      then show ?thesis by blast
    qed
  qed
  from step show ?case
  proof
    assume "activate_tab e p (l # ls) w = (Some l, w\<lparr>trace := trace w @ activation p l\<rparr>)"
    then have "activate_tab e p (l # ls) w =
                 (Some l, w\<lparr>trace := trace w @ concat [] @ activation p l\<rparr>) \<and>
               l # ls = [] @ l # ls \<and> list_all2 (failed_attempt p) [] []"
      by simp
    then show ?thesis by blast
  next
    assume "\<exists>fs. failed_attempt p l fs \<and>
                 activate_tab e p (l # ls) w = activate_tab e p ls (w\<lparr>trace := trace w @ fs\<rparr>)"
    then obtain fs where f: "failed_attempt p l fs"
      and a: "activate_tab e p (l # ls) w = activate_tab e p ls (w\<lparr>trace := trace w @ fs\<rparr>)"
      by blast
    let ?w = "w\<lparr>trace := trace w @ fs\<rparr>"
    from Cons.IH [of ?w] show ?thesis
    proof
      assume "\<exists>evss. activate_tab e p ls ?w = (None, ?w\<lparr>trace := trace ?w @ concat evss\<rparr>) \<and>
           list_all2 (failed_attempt p) ls evss"
      then obtain evss where
        r: "activate_tab e p ls ?w = (None, ?w\<lparr>trace := trace ?w @ concat evss\<rparr>)"
        and l2: "list_all2 (failed_attempt p) ls evss" by blast
      have "activate_tab e p (l # ls) w = (None, w\<lparr>trace := trace w @ concat (fs # evss)\<rparr>)"
        using a r by simp
      moreover have "list_all2 (failed_attempt p) (l # ls) (fs # evss)"
        using f l2 by simp
      ultimately show ?thesis by blast
    next
      assume "\<exists>pre l' post evss.
          activate_tab e p ls ?w = (Some l', ?w\<lparr>trace := trace ?w @ concat evss @ activation p l'\<rparr>) \<and>
          ls = pre @ l' # post \<and> list_all2 (failed_attempt p) pre evss"
      then obtain pre l' post evss where
        r: "activate_tab e p ls ?w = (Some l', ?w\<lparr>trace := trace ?w @ concat evss @ activation p l'\<rparr>)"
        and s: "ls = pre @ l' # post" and l2: "list_all2 (failed_attempt p) pre evss"
        by blast
      have "activate_tab e p (l # ls) w =
              (Some l', w\<lparr>trace := trace w @ concat (fs # evss) @ activation p l'\<rparr>)"
        using a r by simp
      moreover have "l # ls = (l # pre) @ l' # post" using s by simp
      moreover have "list_all2 (failed_attempt p) (l # pre) (fs # evss)"
        using f l2 by simp
      ultimately show ?thesis by blast
    qed
  qed
qed


text \<open>
  C7, amended. Activating a label is its click followed by the wait of three seconds. The
  loop tries the candidate labels in the order of the list: every label before the one it
  returns failed to activate, in the click or in the wait, and was logged as not found; the
  label it returns is the first whose click and wait both returned, and no later label is
  tried; it returns none when every label failed. For the two labels of the source, the
  historical step either logs the error and does nothing else when both failed, or calls
  \<open>scrape_table\<close> with the label that was activated as its title. In particular, when the
  click on the first label raises and the second label activates, the second label is the
  title passed to \<open>scrape_table\<close>.
\<close>

theorem tab_fallback:
  "((\<exists>evss. activate_tab e p ls w = (None, w\<lparr>trace := trace w @ concat evss\<rparr>) \<and>
            list_all2 (failed_attempt p) ls evss) \<or>
    (\<exists>pre l post evss.
       activate_tab e p ls w = (Some l, w\<lparr>trace := trace w @ concat evss @ activation p l\<rparr>) \<and>
       ls = pre @ l # post \<and> list_all2 (failed_attempt p) pre evss)) \<and>
   ((\<exists>evss. list_all2 (failed_attempt p) [tab_label_1, tab_label_2] evss \<and>
            historical_step e p c m w =
              w\<lparr>trace := trace w @ Log Info AttemptHistorical # concat evss @
                              [Log Error (NoHistoricalTab c)]\<rparr>) \<or>
    (\<exists>pre l post evss.
       [tab_label_1, tab_label_2] = pre @ l # post \<and> list_all2 (failed_attempt p) pre evss \<and>
       historical_step e p c m w =
         (case scrape_table e p c m l
                 (w\<lparr>trace := trace w @ Log Info AttemptHistorical # concat evss @
                                 activation p l\<rparr>) of
            (None, w2) \<Rightarrow> w2
          | (Some df, w2) \<Rightarrow> append_to_excel e df output_file historical_sheet w2))) \<and>
   (act e (trace w @ [Log Info AttemptHistorical])
      (Click (Has_text (Locator p tab_selector) tab_label_1)) = Some x \<and>
    act e (trace w @ [Log Info AttemptHistorical,
                      Act (Click (Has_text (Locator p tab_selector) tab_label_1)) (Some x),
                      Log Warning (TabNotFound tab_label_1)])
      (Click (Has_text (Locator p tab_selector) tab_label_2)) = None \<and>
    act e (trace w @ [Log Info AttemptHistorical,
                      Act (Click (Has_text (Locator p tab_selector) tab_label_1)) (Some x),
                      Log Warning (TabNotFound tab_label_1),
                      Act (Click (Has_text (Locator p tab_selector) tab_label_2)) None])
      (WaitForTimeout p 3000) = None \<longrightarrow>
      historical_step e p c m w =
        (case scrape_table e p c m tab_label_2
                (w\<lparr>trace := trace w @
                   [Log Info AttemptHistorical,
                    Act (Click (Has_text (Locator p tab_selector) tab_label_1)) (Some x),
                    Log Warning (TabNotFound tab_label_1),
                    Act (Click (Has_text (Locator p tab_selector) tab_label_2)) None,
                    Act (WaitForTimeout p 3000) None,
                    Log Info (ClickedTab tab_label_2)]\<rparr>) of
           (None, w2) \<Rightarrow> w2
         | (Some df, w2) \<Rightarrow> append_to_excel e df output_file historical_sheet w2))"
proof (intro conjI impI)
  show "(\<exists>evss. activate_tab e p ls w = (None, w\<lparr>trace := trace w @ concat evss\<rparr>) \<and>
            list_all2 (failed_attempt p) ls evss) \<or>
    (\<exists>pre l post evss.
       activate_tab e p ls w = (Some l, w\<lparr>trace := trace w @ concat evss @ activation p l\<rparr>) \<and>
       ls = pre @ l # post \<and> list_all2 (failed_attempt p) pre evss)"
    by (rule activate_tab_shape)
next
  let ?w0 = "log Info AttemptHistorical w"
  let ?ls = "[tab_label_1, tab_label_2]"
  from activate_tab_shape [of e p ?ls ?w0]
  show "(\<exists>evss. list_all2 (failed_attempt p) [tab_label_1, tab_label_2] evss \<and>
            historical_step e p c m w =
              w\<lparr>trace := trace w @ Log Info AttemptHistorical # concat evss @
                              [Log Error (NoHistoricalTab c)]\<rparr>) \<or>
    (\<exists>pre l post evss.
       [tab_label_1, tab_label_2] = pre @ l # post \<and> list_all2 (failed_attempt p) pre evss \<and>
       historical_step e p c m w =
         (case scrape_table e p c m l
                 (w\<lparr>trace := trace w @ Log Info AttemptHistorical # concat evss @
                                 activation p l\<rparr>) of
            (None, w2) \<Rightarrow> w2
          | (Some df, w2) \<Rightarrow> append_to_excel e df output_file historical_sheet w2))"
  proof
    assume "\<exists>evss. activate_tab e p ?ls ?w0 = (None, ?w0\<lparr>trace := trace ?w0 @ concat evss\<rparr>) \<and>
           list_all2 (failed_attempt p) ?ls evss"
    then obtain evss where
      a: "activate_tab e p ?ls ?w0 = (None, ?w0\<lparr>trace := trace ?w0 @ concat evss\<rparr>)"
      and f: "list_all2 (failed_attempt p) ?ls evss" by blast
    have "historical_step e p c m w =
              w\<lparr>trace := trace w @ Log Info AttemptHistorical # concat evss @
                              [Log Error (NoHistoricalTab c)]\<rparr>"
      unfolding historical_step_def a by (simp add: log_def)
    with f show ?thesis by blast
  next
    assume "\<exists>pre l post evss.
      activate_tab e p ?ls ?w0 = (Some l, ?w0\<lparr>trace := trace ?w0 @ concat evss @ activation p l\<rparr>) \<and>
      ?ls = pre @ l # post \<and> list_all2 (failed_attempt p) pre evss"
    then obtain pre l post evss where
      a: "activate_tab e p ?ls ?w0 = (Some l, ?w0\<lparr>trace := trace ?w0 @ concat evss @ activation p l\<rparr>)"
      and s: "?ls = pre @ l # post" and f: "list_all2 (failed_attempt p) pre evss"
      by blast
    have "historical_step e p c m w =
         (case scrape_table e p c m l
                 (w\<lparr>trace := trace w @ Log Info AttemptHistorical # concat evss @
                                 activation p l\<rparr>) of
            (None, w2) \<Rightarrow> w2
          | (Some df, w2) \<Rightarrow> append_to_excel e df output_file historical_sheet w2)"
      unfolding historical_step_def a by (simp add: log_def)
    with s f show ?thesis by blast
  qed
next
  assume a: "act e (trace w @ [Log Info AttemptHistorical])
      (Click (Has_text (Locator p tab_selector) tab_label_1)) = Some x \<and>
    act e (trace w @ [Log Info AttemptHistorical,
                      Act (Click (Has_text (Locator p tab_selector) tab_label_1)) (Some x),
                      Log Warning (TabNotFound tab_label_1)])
      (Click (Has_text (Locator p tab_selector) tab_label_2)) = None \<and>
    act e (trace w @ [Log Info AttemptHistorical,
                      Act (Click (Has_text (Locator p tab_selector) tab_label_1)) (Some x),
                      Log Warning (TabNotFound tab_label_1),
                      Act (Click (Has_text (Locator p tab_selector) tab_label_2)) None])
      (WaitForTimeout p 3000) = None"
  then show "historical_step e p c m w =
        (case scrape_table e p c m tab_label_2
                (w\<lparr>trace := trace w @
                   [Log Info AttemptHistorical,
                    Act (Click (Has_text (Locator p tab_selector) tab_label_1)) (Some x),
                    Log Warning (TabNotFound tab_label_1),
                    Act (Click (Has_text (Locator p tab_selector) tab_label_2)) None,
                    Act (WaitForTimeout p 3000) None,
                    Log Info (ClickedTab tab_label_2)]\<rparr>) of
           (None, w2) \<Rightarrow> w2
         | (Some df, w2) \<Rightarrow> append_to_excel e df output_file historical_sheet w2)"
    by (simp add: historical_step_def do_act_def Let_def log_def)
qed

theorem tab_fallback_witness:
  "tab_label_1 \<noteq> tab_label_2 \<and>
   fst (activate_tab env_second_tab (Page 1) [tab_label_1, tab_label_2] world_empty)
     = Some tab_label_2 \<and>
   historical_step env_second_tab (Page 1) ''Acme'' ''Acme Ltd'' world_empty =
     (case scrape_table env_second_tab (Page 1) ''Acme'' ''Acme Ltd'' tab_label_2
             (world_empty\<lparr>trace :=
                [Log Info AttemptHistorical,
                 Act (Click (Has_text (Locator (Page 1) tab_selector) tab_label_1)) (Some timeout_error),
                 Log Warning (TabNotFound tab_label_1),
                 Act (Click (Has_text (Locator (Page 1) tab_selector) tab_label_2)) None,
                 Act (WaitForTimeout (Page 1) 3000) None,
                 Log Info (ClickedTab tab_label_2)]\<rparr>) of
        (None, w2) \<Rightarrow> w2
      | (Some df, w2) \<Rightarrow> append_to_excel env_second_tab df output_file historical_sheet w2)"
proof -
  have ne: "tab_label_1 \<noteq> tab_label_2"
    by (simp add: tab_label_1_def tab_label_2_def)
  have a: "fst (activate_tab env_second_tab (Page 1) [tab_label_1, tab_label_2] world_empty)
     = Some tab_label_2"
    using ne by (simp add: do_act_def Let_def env_second_tab_def env_ok_def)
  have h: "act env_second_tab (trace world_empty @ [Log Info AttemptHistorical])
      (Click (Has_text (Locator (Page 1) tab_selector) tab_label_1)) = Some timeout_error \<and>
    act env_second_tab (trace world_empty @ [Log Info AttemptHistorical,
                      Act (Click (Has_text (Locator (Page 1) tab_selector) tab_label_1)) (Some timeout_error),
                      Log Warning (TabNotFound tab_label_1)])
      (Click (Has_text (Locator (Page 1) tab_selector) tab_label_2)) = None \<and>
    act env_second_tab (trace world_empty @ [Log Info AttemptHistorical,
                      Act (Click (Has_text (Locator (Page 1) tab_selector) tab_label_1)) (Some timeout_error),
                      Log Warning (TabNotFound tab_label_1),
                      Act (Click (Has_text (Locator (Page 1) tab_selector) tab_label_2)) None])
      (WaitForTimeout (Page 1) 3000) = None"
    using ne by (simp add: env_second_tab_def env_ok_def)
  from tab_fallback [where e = env_second_tab and p = "Page 1" and c = "''Acme''"
      and m = "''Acme Ltd''" and w = world_empty and x = timeout_error,
      THEN conjunct2, THEN conjunct2, rule_format, OF h] ne a
  show ?thesis by (simp add: world_empty_def)
qed

text \<open>
  With the click alone as the criterion the property of C7 fails: when the click on the
  first label returns and the wait of line 54 raises, line 58 catches it, the first label is
  logged as not found and the second label is clicked.
\<close>

theorem tab_fallback_counterexample:
  "activate_tab env_settle_fails (Page 1) [tab_label_1, tab_label_2] world_empty =
     (None,
      world_empty\<lparr>trace :=
        [Act (Click (Has_text (Locator (Page 1) tab_selector) tab_label_1)) None,
         Act (WaitForTimeout (Page 1) 3000) (Some timeout_error),
         Log Warning (TabNotFound tab_label_1),
         Act (Click (Has_text (Locator (Page 1) tab_selector) tab_label_2)) None,
         Act (WaitForTimeout (Page 1) 3000) (Some timeout_error),
         Log Warning (TabNotFound tab_label_2)]\<rparr>)"
  by (simp add: do_act_def Let_def log_def env_settle_fails_def env_ok_def world_empty_def)

lemma scrape_table_None_last:
  "scrape_table e pg o_name m_name t w = (None, w') \<Longrightarrow> \<exists>msg. last (trace w') = Log Error msg"
  by (auto simp: scrape_table_def split: prod.splits sum.splits option.splits)

lemma append_to_excel_last:
  "(\<exists>msg. last (trace (append_to_excel e df path s w)) = Log Error msg) \<or>
   last (trace (append_to_excel e df path s w)) = Log Info (DataAppended path s)"
  by (auto simp: append_to_excel_def split: prod.splits sum.splits option.splits)

lemma historical_step_trace:
  "\<exists>evs. trace (historical_step e p c m w) = trace w @ Log Info AttemptHistorical # evs"
proof -
  have "inner (log Info AttemptHistorical w) (historical_step e p c m w)"
  proof -
    obtain r1 w2 where a:
      "activate_tab e p [tab_label_1, tab_label_2] (log Info AttemptHistorical w) = (r1, w2)"
      by (cases "activate_tab e p [tab_label_1, tab_label_2] (log Info AttemptHistorical w)")
    have i2: "inner (log Info AttemptHistorical w) w2"
      using inner_refl a by (rule inner_activate_tab)
    show ?thesis
    proof (cases r1)
      case None
      with a i2 show ?thesis
        by (simp add: historical_step_def inner_log inner_event_log)
    next
      case (Some tab_text)
      obtain r2 w3 where st: "scrape_table e p c m tab_text w2 = (r2, w3)"
        by (cases "scrape_table e p c m tab_text w2")
      have "inner (log Info AttemptHistorical w) w3" using i2 st by (rule inner_scrape_table)
      with Some a st show ?thesis
        by (cases r2) (simp_all add: historical_step_def inner_append_to_excel)
    qed
  qed
  then show ?thesis by (auto simp: inner_def)
qed

lemma historical_step_last:
  "(\<exists>msg. last (trace (historical_step e p c m w)) = Log Error msg) \<or>
   last (trace (historical_step e p c m w)) = Log Info (DataAppended output_file historical_sheet)"
proof -
  obtain r1 w2 where a:
    "activate_tab e p [tab_label_1, tab_label_2] (log Info AttemptHistorical w) = (r1, w2)"
    by (cases "activate_tab e p [tab_label_1, tab_label_2] (log Info AttemptHistorical w)")
  show ?thesis
  proof (cases r1)
    case None
    with a show ?thesis by (simp add: historical_step_def)
  next
    case (Some tab_text)
    obtain r2 w3 where st: "scrape_table e p c m tab_text w2 = (r2, w3)"
      by (cases "scrape_table e p c m tab_text w2")
    show ?thesis
    proof (cases r2)
      case None
      with st have "\<exists>msg. last (trace w3) = Log Error msg"
        by (simp add: scrape_table_None_last)
      with None Some a st show ?thesis by (simp add: historical_step_def)
    next
      case df: (Some df)
      have "historical_step e p c m w = append_to_excel e df output_file historical_sheet w3"
        using df Some a st by (simp add: historical_step_def)
      then show ?thesis
        using append_to_excel_last [of e df output_file historical_sheet w3] by simp
    qed
  qed
qed


lemma sct_files:
  assumes "company_body e pg c w = (pp, r, w2)"
  shows "files (snd (scrape_company_tables e pg c w)) = files w2"
  using assms
  by (cases r; cases pp) (simp_all add: scrape_company_tables_def do_act_def Let_def)

text \<open>
  C6. The historical step always returns, whatever the site and the file system answer: it
  leaves the sheet of the main table untouched, its first event is the log line that
  announces it, and its last event is an error line or the confirmation that the
  historical rows were appended. And for a company whose popup opened and loaded: the main
  table is scraped and, when a frame came back, merged into the sheet of the main table;
  all of that comes in the trace before the historical attempt is announced; whatever the
  historical path then does, the body raises nothing and the sheet of the main table at
  the end of \<open>scrape_company_tables\<close> is the one that this merge left.
\<close>

theorem historical_best_effort:
  "sheet_of (historical_step e p c m w') output_file main_sheet
     = sheet_of w' output_file main_sheet \<and>
   (\<exists>evs. trace (historical_step e p c m w') = trace w' @ Log Info AttemptHistorical # evs) \<and>
   ((\<exists>msg. last (trace (historical_step e p c m w')) = Log Error msg) \<or>
    last (trace (historical_step e p c m w')) = Log Info (DataAppended output_file historical_sheet)) \<and>
   (search_company e pg c (log Info (StartScrape c) w) = (Inr (Some (m, p)), w1) \<and>
    act e (trace w1) (WaitForLoadState p ''domcontentloaded'') = None \<and>
    scrape_table e p c m main_table_title
      (log Info (PopupLoaded c)
         (w1\<lparr>trace := trace w1 @ [Act (WaitForLoadState p ''domcontentloaded'') None]\<rparr>))
      = (r, w2) \<and>
    wm = (case r of None \<Rightarrow> w2
          | Some df \<Rightarrow> append_to_excel e df output_file main_sheet w2) \<longrightarrow>
      sheet_of (snd (scrape_company_tables e pg c w)) output_file main_sheet
        = sheet_of wm output_file main_sheet \<and>
      (\<exists>evs. trace (snd (scrape_company_tables e pg c w))
               = trace wm @ Log Info AttemptHistorical # evs) \<and>
      fst (snd (company_body e pg c w)) = Inr ())"
proof (intro conjI impI; (elim conjE)?)
  have "main_sheet \<noteq> historical_sheet"
    by (simp add: main_sheet_def historical_sheet_def)
  then show "sheet_of (historical_step e p c m w') output_file main_sheet =
             sheet_of w' output_file main_sheet"
    by (rule historical_step_frame)
next
  show "\<exists>evs. trace (historical_step e p c m w') = trace w' @ Log Info AttemptHistorical # evs"
    by (rule historical_step_trace)
next
  show "(\<exists>msg. last (trace (historical_step e p c m w')) = Log Error msg) \<or>
    last (trace (historical_step e p c m w')) = Log Info (DataAppended output_file historical_sheet)"
    by (rule historical_step_last)
next
  assume sc: "search_company e pg c (log Info (StartScrape c) w) = (Inr (Some (m, p)), w1)"
    and ld: "act e (trace w1) (WaitForLoadState p ''domcontentloaded'') = None"
    and st: "scrape_table e p c m main_table_title
      (log Info (PopupLoaded c)
         (w1\<lparr>trace := trace w1 @ [Act (WaitForLoadState p ''domcontentloaded'') None]\<rparr>))
      = (r, w2)"
    and wm: "wm = (case r of None \<Rightarrow> w2
          | Some df \<Rightarrow> append_to_excel e df output_file main_sheet w2)"
  let ?w1 = "log Info (PopupLoaded c)
         (w1\<lparr>trace := trace w1 @ [Act (WaitForLoadState p ''domcontentloaded'') None]\<rparr>)"
  have ms: "main_table_step e p c m ?w1 = wm"
    using st wm by (cases r) (simp_all add: main_table_step_def)
  have sp: "scrape_popup e p c m w1 = (Inr (), historical_step e p c m wm)"
    using ld ms by (simp add: scrape_popup_def do_act_def Let_def)
  have cb: "company_body e pg c w = (Some p, Inr (), historical_step e p c m wm)"
    using sc sp by (simp add: company_body_def)
  have ne: "main_sheet \<noteq> historical_sheet"
    by (simp add: main_sheet_def historical_sheet_def)
  have "sheet_of (snd (scrape_company_tables e pg c w)) output_file main_sheet
          = sheet_of (historical_step e p c m wm) output_file main_sheet"
    using sct_files [OF cb] by (rule sheet_of_cong)
  also have "\<dots> = sheet_of wm output_file main_sheet"
    using ne by (rule historical_step_frame)
  finally show "sheet_of (snd (scrape_company_tables e pg c w)) output_file main_sheet
        = sheet_of wm output_file main_sheet" .
  from historical_step_trace [of e p c m wm] obtain evs where
    ht: "trace (historical_step e p c m wm) = trace wm @ Log Info AttemptHistorical # evs"
    by blast
  have "trace (snd (scrape_company_tables e pg c w)) =
          trace (historical_step e p c m wm) @ [] @
            [Act (Close p) (act e (trace (historical_step e p c m wm) @ []) (Close p))] @
            [Act (Goto pg landing_url)
               (act e (trace (historical_step e p c m wm) @ [] @
                  [Act (Close p) (act e (trace (historical_step e p c m wm) @ []) (Close p))])
                  (Goto pg landing_url))]"
    by (rule sct_after_body(1) [OF cb]) simp_all
  then have "trace (snd (scrape_company_tables e pg c w)) =
          trace wm @ Log Info AttemptHistorical #
            (evs @ [Act (Close p) (act e (trace (historical_step e p c m wm)) (Close p)),
              Act (Goto pg landing_url)
               (act e (trace (historical_step e p c m wm) @
                  [Act (Close p) (act e (trace (historical_step e p c m wm)) (Close p))])
                  (Goto pg landing_url))])"
    unfolding ht by simp
  then show "\<exists>evs. trace (snd (scrape_company_tables e pg c w))
               = trace wm @ Log Info AttemptHistorical # evs"
    by (rule exI)
  show "fst (snd (company_body e pg c w)) = Inr ()"
    using cb by simp
qed


lemma files_search_company:
  "search_company e pg c w = (r, w1) \<Longrightarrow> files w1 = files w"
  by (auto simp: search_company_def do_act_def get_text_content_def click_expect_popup_def
        Let_def sleep_def log_def locator_truthy_def split: option.splits sum.splits)

lemma append_to_excel_new:
  assumes "files w path = None" and "act e (trace w) (WriteExcel path ModeW s) = None"
  shows "sheet_of (append_to_excel e df path s w) path s = Some df"
  using assms
  by (simp add: append_to_excel_def excel_write_def do_act_def Let_def sheet_of_def)

theorem historical_best_effort_witness:
  "sheet_of (snd (scrape_company_tables env_no_tabs (Page 0) ''Acme'' world_empty))
     output_file main_sheet
     = Some \<lparr>columns = [original_column, matched_column, ''Name'', ''Share''],
             rows = [[Some ''Acme'', Some ''Acme Ltd'', Some ''Li'', Some ''60%''],
                     [Some ''Acme'', Some ''Acme Ltd'', Some ''Zhao'', Some ''40%'']]\<rparr>"
proof -
  let ?e = env_no_tabs
  let ?df = "\<lparr>columns = [original_column, matched_column, ''Name'', ''Share''],
             rows = [[Some ''Acme'', Some ''Acme Ltd'', Some ''Li'', Some ''60%''],
                     [Some ''Acme'', Some ''Acme Ltd'', Some ''Zhao'', Some ''40%'']]\<rparr>"
  let ?w0 = "log Info (StartScrape ''Acme'') world_empty"
  obtain w1 where sc: "search_company ?e (Page 0) ''Acme'' ?w0 = (Inr (Some (''Acme Ltd'', Page 1)), w1)"
    by (simp add: search_company_def do_act_def get_text_content_def click_expect_popup_def
          Let_def locator_truthy_def env_no_tabs_def env_ok_def)
  have f1: "files w1 = files world_empty"
    using files_search_company [OF sc] by simp
  have ld: "act ?e (trace w1) (WaitForLoadState (Page 1) ''domcontentloaded'') = None"
    by (simp add: env_no_tabs_def env_ok_def)
  let ?w2 = "log Info (PopupLoaded ''Acme'')
         (w1\<lparr>trace := trace w1 @ [Act (WaitForLoadState (Page 1) ''domcontentloaded'') None]\<rparr>)"
  let ?w3 = "log Info (ScrapingTable main_table_title ''Acme'') ?w2"
  have "wait_loaded ?e (Locator (Page 1) table_selector) 0 ?w3 =
          (Inr (Some example_html),
           ?w3\<lparr>trace := trace ?w3 @ [InnerHtml (Locator (Page 1) table_selector) (Inr example_html)]\<rparr>)"
    by (rule wait_loaded_first)
       (simp_all add: max_retries_def env_no_tabs_def env_ok_def example_html_loaded)
  then obtain w4 where
    st: "scrape_table ?e (Page 1) ''Acme'' ''Acme Ltd'' main_table_title ?w2 = (Some ?df, w4)"
    by (simp add: scrape_table_def parse_table_def env_no_tabs_def env_ok_def example_parsed_def
          DataFrame_def df_insert_def original_column_def matched_column_def)
  have f4: "files w4 = files world_empty"
    using files_scrape_table [OF st] f1 by simp
  have wr: "act ?e (trace w4) (WriteExcel output_file ModeW main_sheet) = None"
    by (simp add: env_no_tabs_def env_ok_def)
  have "sheet_of (append_to_excel ?e ?df output_file main_sheet w4) output_file main_sheet = Some ?df"
    using f4 wr by (intro append_to_excel_new) (simp_all add: world_empty_def)
  moreover have "sheet_of (snd (scrape_company_tables ?e (Page 0) ''Acme'' world_empty))
                   output_file main_sheet
        = sheet_of (append_to_excel ?e ?df output_file main_sheet w4) output_file main_sheet"
    using historical_best_effort [where e = ?e and pg = "Page 0" and c = "''Acme''"
        and w = world_empty and m = "''Acme Ltd''" and p = "Page 1" and ?w1.0 = w1
        and r = "Some ?df" and ?w2.0 = w4
        and wm = "append_to_excel ?e ?df output_file main_sheet w4"] sc ld st
    by simp
  ultimately show ?thesis by simp
qed

section \<open>Merging rows into a sheet\<close>

text \<open>The two file operations when the environment lets them through.\<close>

lemma read_excel_ok:
  assumes "files w path = Some wb" and "wb s = Some ex"
    and "act e (trace w) (ReadExcel path s) = None"
  shows "read_excel e path s w =
           (Inr (read_back e ex), w\<lparr>trace := trace w @ [Act (ReadExcel path s) None]\<rparr>)"
  using assms by (simp add: read_excel_def do_act_def Let_def)

lemma excel_write_append_ok:
  assumes "files w path = Some wb" and "act e (trace w) (WriteExcel path ModeA s) = None"
  shows "excel_write e path ModeA s df w =
           (Inr (), w\<lparr>trace := trace w @ [Act (WriteExcel path ModeA s) None],
                      files := (files w)(path \<mapsto> wb(s \<mapsto> df))\<rparr>)"
  using assms by (simp add: excel_write_def do_act_def Let_def)

lemma read_excel_missing:
  assumes "files w path = Some wb" and "wb s = None"
  shows "\<exists>x. read_excel e path s w =
           (Inl x, w\<lparr>trace := trace w @ [Act (ReadExcel path s) (act e (trace w) (ReadExcel path s))]\<rparr>)"
  using assms
  by (cases "act e (trace w) (ReadExcel path s)") (simp_all add: read_excel_def do_act_def Let_def)

lemma append_to_excel_existing:
  assumes "files w path = Some wb" and "wb s = Some ex"
    and "act e (trace w) (ReadExcel path s) = None"
    and "act e (trace w @ [Act (ReadExcel path s) None]) (WriteExcel path ModeA s) = None"
    and "columns df = columns (read_back e ex)"
  shows "sheet_of (append_to_excel e df path s w) path s
           = Some \<lparr>columns = columns df, rows = rows (read_back e ex) @ rows df\<rparr>"
proof -
  let ?w1 = "w\<lparr>trace := trace w @ [Act (ReadExcel path s) None]\<rparr>"
  let ?df = "\<lparr>columns = columns df, rows = rows (read_back e ex) @ rows df\<rparr>"
  have rd: "read_excel e path s w = (Inr (read_back e ex), ?w1)"
    using assms(1-3) by (rule read_excel_ok)
  have cc: "pd_concat (read_back e ex) df = Inr ?df"
    using assms(5) by (simp add: pd_concat_def)
  have wr: "excel_write e path ModeA s ?df ?w1 =
        (Inr (), ?w1\<lparr>trace := trace ?w1 @ [Act (WriteExcel path ModeA s) None],
                      files := (files ?w1)(path \<mapsto> wb(s \<mapsto> ?df))\<rparr>)"
    using assms(1,4) by (intro excel_write_append_ok) simp_all
  show ?thesis
    using assms(1) rd cc wr by (simp add: append_to_excel_def sheet_of_def)
qed

text \<open>
  C1, amended. When the workbook has the target sheet, reading that sheet and writing the
  workbook back both succeed, and the sheet as \<^verbatim>\<open>pd.read_excel\<close> returns it has the column
  labels of the new snapshot, the sheet afterwards holds the rows that were read, in their
  order, followed by the rows of the snapshot in theirs; these are the stored rows
  themselves when the read returns the stored sheet unchanged. When the workbook or the
  sheet does not exist yet and the write succeeds, the sheet afterwards is the snapshot.
  So merging one row and then another into a fresh sheet gives the two rows in that order.
\<close>

theorem merge_appends:
  "(files w path = Some wb \<and> wb s = Some ex \<and>
    act e (trace w) (ReadExcel path s) = None \<and>
    act e (trace w @ [Act (ReadExcel path s) None]) (WriteExcel path ModeA s) = None \<and>
    columns df = columns (read_back e ex) \<longrightarrow>
      sheet_of (append_to_excel e df path s w) path s
        = Some \<lparr>columns = columns df, rows = rows (read_back e ex) @ rows df\<rparr>) \<and>
   (files w path = Some wb \<and> wb s = Some ex \<and>
    act e (trace w) (ReadExcel path s) = None \<and>
    act e (trace w @ [Act (ReadExcel path s) None]) (WriteExcel path ModeA s) = None \<and>
    read_back e ex = ex \<and> columns df = columns ex \<longrightarrow>
      sheet_of (append_to_excel e df path s w) path s
        = Some \<lparr>columns = columns ex, rows = rows ex @ rows df\<rparr>) \<and>
   (files w path = None \<and> act e (trace w) (WriteExcel path ModeW s) = None \<longrightarrow>
      sheet_of (append_to_excel e df path s w) path s = Some df) \<and>
   (files w path = Some wb \<and> wb s = None \<and>
    act e (trace w @ [Act (ReadExcel path s) (act e (trace w) (ReadExcel path s)),
                      Log Warning (SheetMissing s)])
      (WriteExcel path ModeA s) = None \<longrightarrow>
      sheet_of (append_to_excel e df path s w) path s = Some df)"
proof (intro conjI impI; elim conjE)
  assume "files w path = Some wb" "wb s = Some ex"
    "act e (trace w) (ReadExcel path s) = None"
    "act e (trace w @ [Act (ReadExcel path s) None]) (WriteExcel path ModeA s) = None"
    "columns df = columns (read_back e ex)"
  then show "sheet_of (append_to_excel e df path s w) path s
        = Some \<lparr>columns = columns df, rows = rows (read_back e ex) @ rows df\<rparr>"
    by (rule append_to_excel_existing)
next
  assume a: "files w path = Some wb" "wb s = Some ex"
    "act e (trace w) (ReadExcel path s) = None"
    "act e (trace w @ [Act (ReadExcel path s) None]) (WriteExcel path ModeA s) = None"
    "read_back e ex = ex" "columns df = columns ex"
  from a(5,6) have "columns df = columns (read_back e ex)" by simp
  with a(1-4) have "sheet_of (append_to_excel e df path s w) path s
        = Some \<lparr>columns = columns df, rows = rows (read_back e ex) @ rows df\<rparr>"
    by (rule append_to_excel_existing)
  with a(5,6) show "sheet_of (append_to_excel e df path s w) path s
        = Some \<lparr>columns = columns ex, rows = rows ex @ rows df\<rparr>"
    by simp
next
  assume "files w path = None" "act e (trace w) (WriteExcel path ModeW s) = None"
  then show "sheet_of (append_to_excel e df path s w) path s = Some df"
    by (rule append_to_excel_new)
next
  let ?r = "act e (trace w) (ReadExcel path s)"
  let ?w1 = "w\<lparr>trace := trace w @ [Act (ReadExcel path s) ?r]\<rparr>"
  let ?w2 = "log Warning (SheetMissing s) ?w1"
  assume a: "files w path = Some wb" "wb s = None"
    "act e (trace w @ [Act (ReadExcel path s) ?r, Log Warning (SheetMissing s)])
       (WriteExcel path ModeA s) = None"
  from read_excel_missing [OF a(1,2), of e] obtain x where
    rd: "read_excel e path s w = (Inl x, ?w1)" by blast
  have wr: "excel_write e path ModeA s df ?w2 =
        (Inr (), ?w2\<lparr>trace := trace ?w2 @ [Act (WriteExcel path ModeA s) None],
                      files := (files ?w2)(path \<mapsto> wb(s \<mapsto> df))\<rparr>)"
    using a(1,3) by (intro excel_write_append_ok) simp_all
  show "sheet_of (append_to_excel e df path s w) path s = Some df"
    using a(1) rd wr by (simp add: append_to_excel_def sheet_of_def)
qed

theorem merge_appends_witness:
  "sheet_of (append_to_excel env_ok frame_b output_file main_sheet
               (append_to_excel env_ok frame_a output_file main_sheet world_empty))
     output_file main_sheet
     = Some \<lparr>columns = example_columns,
             rows = [[Some ''Acme'', Some ''Acme Ltd'', Some ''Li'', Some ''60%''],
                     [Some ''Bolt'', Some ''Bolt Ltd'', Some ''Zhao'', Some ''40%'']]\<rparr>"
proof -
  let ?w = "append_to_excel env_ok frame_a output_file main_sheet world_empty"
  have w: "?w = \<lparr>files = [output_file \<mapsto> [main_sheet \<mapsto> frame_a]],
                 trace = [Act (WriteExcel output_file ModeW main_sheet) None,
                          Log Info (DataAppended output_file main_sheet)]\<rparr>"
    by (simp add: append_to_excel_def world_empty_def excel_write_def do_act_def env_ok_def log_def)
  have f: "files ?w output_file = Some [main_sheet \<mapsto> frame_a]"
    by (simp add: w)
  have s: "[main_sheet \<mapsto> frame_a] main_sheet = Some frame_a" by simp
  have r: "act env_ok (trace ?w) (ReadExcel output_file main_sheet) = None"
    by (simp add: env_ok_def)
  have x: "act env_ok (trace ?w @ [Act (ReadExcel output_file main_sheet) None])
            (WriteExcel output_file ModeA main_sheet) = None"
    by (simp add: env_ok_def)
  have b: "read_back env_ok frame_a = frame_a"
    by (simp add: env_ok_def)
  have c: "columns frame_b = columns frame_a"
    by (simp add: frame_a_def frame_b_def)
  have "sheet_of (append_to_excel env_ok frame_b output_file main_sheet ?w) output_file main_sheet
          = Some \<lparr>columns = columns frame_a, rows = rows frame_a @ rows frame_b\<rparr>"
    using merge_appends [of ?w output_file "[main_sheet \<mapsto> frame_a]" main_sheet frame_a
                           env_ok frame_b, THEN conjunct2, THEN conjunct1] f s r x b c
    by blast
  then show ?thesis by (simp add: frame_a_def frame_b_def)
qed

text \<open>
  Without these conditions the property of C1 fails, once for each of them. A refused
  write is caught by line 148 and the sheet keeps the stored rows only. A refused read is
  taken by line 139 for a missing sheet and the sheet is replaced by the new rows alone.
  A stored cell that reads back with another type is written back changed. A snapshot with
  other column labels is aligned by label and both rows get NaN cells. And duplicate
  labels come back renamed, \<^verbatim>\<open>pd.concat\<close> refuses to align them, and the new row is not
  written.
\<close>

theorem merge_appends_counterexample:
  "sheet_of (append_to_excel env_locked frame_b output_file main_sheet world_a)
     output_file main_sheet = Some frame_a \<and>
   sheet_of (append_to_excel env_unreadable frame_b output_file main_sheet world_a)
     output_file main_sheet = Some frame_b \<and>
   sheet_of (append_to_excel env_retype frame_b output_file main_sheet world_codes)
     output_file main_sheet
     = Some \<lparr>columns = example_columns,
             rows = [[Some ''Acme'', Some ''Acme Ltd'', Some ''Li'', Some ''1''],
                     [Some ''Bolt'', Some ''Bolt Ltd'', Some ''Zhao'', Some ''40%'']]\<rparr> \<and>
   sheet_of (append_to_excel env_ok frame_dated output_file main_sheet world_a)
     output_file main_sheet
     = Some \<lparr>columns = [original_column, matched_column, ''Name'', ''Share'', ''Date''],
             rows = [[Some ''Acme'', Some ''Acme Ltd'', Some ''Li'', Some ''60%'', None],
                     [Some ''Bolt'', Some ''Bolt Ltd'', Some ''Zhao'', None, Some ''2020'']]\<rparr> \<and>
   sheet_of (append_to_excel env_rename frame_twin output_file main_sheet world_twin)
     output_file main_sheet = Some frame_twin \<and>
   rows frame_a \<noteq> rows frame_a @ rows frame_b \<and>
   rows frame_b \<noteq> rows frame_a @ rows frame_b \<and>
   [[Some ''Acme'', Some ''Acme Ltd'', Some ''Li'', Some ''1''],
    [Some ''Bolt'', Some ''Bolt Ltd'', Some ''Zhao'', Some ''40%'']]
     \<noteq> rows frame_codes @ rows frame_b \<and>
   [[Some ''Acme'', Some ''Acme Ltd'', Some ''Li'', Some ''60%'', None],
    [Some ''Bolt'', Some ''Bolt Ltd'', Some ''Zhao'', None, Some ''2020'']]
     \<noteq> rows frame_a @ rows frame_dated \<and>
   rows frame_twin \<noteq> rows frame_twin @ rows frame_twin"
proof (intro conjI)
  show "sheet_of (append_to_excel env_locked frame_b output_file main_sheet world_a)
     output_file main_sheet = Some frame_a"
    by (simp add: append_to_excel_def world_a_def read_excel_def excel_write_def do_act_def
        env_locked_def env_ok_def log_def sheet_of_def pd_concat_def frame_a_def frame_b_def)
  show "sheet_of (append_to_excel env_unreadable frame_b output_file main_sheet world_a)
     output_file main_sheet = Some frame_b"
    by (simp add: append_to_excel_def world_a_def read_excel_def excel_write_def do_act_def
        env_unreadable_def env_ok_def log_def sheet_of_def)
  show "sheet_of (append_to_excel env_retype frame_b output_file main_sheet world_codes)
     output_file main_sheet
     = Some \<lparr>columns = example_columns,
             rows = [[Some ''Acme'', Some ''Acme Ltd'', Some ''Li'', Some ''1''],
                     [Some ''Bolt'', Some ''Bolt Ltd'', Some ''Zhao'', Some ''40%'']]\<rparr>"
    by (simp add: append_to_excel_def world_codes_def read_excel_def excel_write_def do_act_def
        env_retype_def env_ok_def log_def sheet_of_def pd_concat_def frame_codes_def frame_b_def
        retype_cell_def)
  show "sheet_of (append_to_excel env_ok frame_dated output_file main_sheet world_a)
     output_file main_sheet
     = Some \<lparr>columns = [original_column, matched_column, ''Name'', ''Share'', ''Date''],
             rows = [[Some ''Acme'', Some ''Acme Ltd'', Some ''Li'', Some ''60%'', None],
                     [Some ''Bolt'', Some ''Bolt Ltd'', Some ''Zhao'', None, Some ''2020'']]\<rparr>"
    by (simp add: append_to_excel_def world_a_def read_excel_def excel_write_def do_act_def
        env_ok_def log_def sheet_of_def pd_concat_def frame_a_def frame_dated_def
        example_columns_def original_column_def matched_column_def reindex_def Let_def)
  show "sheet_of (append_to_excel env_rename frame_twin output_file main_sheet world_twin)
     output_file main_sheet = Some frame_twin"
    by (simp add: append_to_excel_def world_twin_def read_excel_def excel_write_def do_act_def
        env_rename_def env_ok_def log_def sheet_of_def pd_concat_def frame_twin_def
        original_column_def matched_column_def)
qed (simp_all add: frame_a_def frame_b_def frame_codes_def frame_dated_def frame_twin_def)

end
